theory Spec2Isabelle
  imports Main "HOL-Library.Sublist"
begin

section \<open>Values\<close>

text \<open>
  The trees \<^verbatim>\<open>structured.js\<close> works on are plain JavaScript values: the output of
  the parser or of \<^verbatim>\<open>JSON.parse\<close>. An object is the list of its own properties in
  insertion order (the order of \<^verbatim>\<open>for (var key in obj)\<close>), with distinct
  keys; an array is the list of its elements. A character is a code unit below 256.
  \<open>JRef v\<close> occurs in templates only: it is a reference to the shared object
  \<^verbatim>\<open>wVars.values[v]\<close> that \<^verbatim>\<open>simplifyTree\<close> stores at the later occurrences
  of the variable \<open>v\<close>; everywhere else it is an object without properties.
\<close>

text \<open>
  The program negates numbers, compares them, tests them for truth and writes them as
  JSON, and does nothing else with them. A number is kept as the text that
  \<^verbatim>\<open>String(n)\<close> gives for it: \<^verbatim>\<open>5\<close>, \<^verbatim>\<open>-0.5\<close>, \<^verbatim>\<open>1e+21\<close>, \<^verbatim>\<open>Infinity\<close>,
  \<^verbatim>\<open>-Infinity\<close>, \<^verbatim>\<open>NaN\<close>. Two numbers other than \<^verbatim>\<open>NaN\<close> are equal when their
  texts are; both zeros have the text \<^verbatim>\<open>0\<close>, and the program cannot tell them apart.
\<close>

type_synonym jsnum = string

datatype jsval =
    JUndef
  | JNull
  | JBool bool
  | JNum jsnum
  | JStr string
  | JObj "(string \<times> jsval) list"
  | JArr "jsval list"
  | JRef string

datatype error =
    TypeError
  | SyntaxError
  | ParseError
  | PoorlyFormatted
  | RangeError

type_synonym fields = "(string \<times> jsval) list"

text \<open>Truthiness, \<^verbatim>\<open>_.isObject\<close>, \<^verbatim>\<open>_.isArray\<close>, \<^verbatim>\<open>_.isNumber\<close>, \<^verbatim>\<open>typeof\<close>.\<close>

fun truthy :: "jsval \<Rightarrow> bool" where
  "truthy JUndef = False"
| "truthy JNull = False"
| "truthy (JBool b) = b"
| "truthy (JNum n) = (n \<noteq> ''0'' \<and> n \<noteq> ''NaN'')"
| "truthy (JStr s) = (s \<noteq> [])"
| "truthy (JObj fs) = True"
| "truthy (JArr xs) = True"
| "truthy (JRef v) = True"

fun isObject :: "jsval \<Rightarrow> bool" where
  "isObject (JObj fs) = True"
| "isObject (JArr xs) = True"
| "isObject (JRef v) = True"
| "isObject v = False"

fun isArray :: "jsval \<Rightarrow> bool" where
  "isArray (JArr xs) = True"
| "isArray v = False"

fun isNumber :: "jsval \<Rightarrow> bool" where
  "isNumber (JNum n) = True"
| "isNumber v = False"

fun nullish :: "jsval \<Rightarrow> bool" where
  "nullish JUndef = True"
| "nullish JNull = True"
| "nullish v = False"

fun typeof :: "jsval \<Rightarrow> string" where
  "typeof JUndef = ''undefined''"
| "typeof (JBool b) = ''boolean''"
| "typeof (JNum n) = ''number''"
| "typeof (JStr s) = ''string''"
| "typeof v = ''object''"

text \<open>
  Decimal rendering of an array index: the property key under which \<^verbatim>\<open>for in\<close>
  enumerates the element.
\<close>

fun show_nat :: "nat \<Rightarrow> string" where
  "show_nat n =
     (if n < 10 then [''0123456789'' ! n]
      else show_nat (n div 10) @ [''0123456789'' ! (n mod 10)])"

declare show_nat.simps [simp del]

text \<open>
  The number of an integer; \<^verbatim>\<open>-n\<close>; the numbers that JSON can write (the others
  become \<^verbatim>\<open>null\<close>); and \<^verbatim>\<open>a === b\<close> on values that are not objects, where
  \<^verbatim>\<open>NaN\<close> differs from itself.
\<close>

definition numOfInt :: "int \<Rightarrow> jsnum" where
  "numOfInt n = (if n < 0 then CHR ''-'' # show_nat (nat (- n)) else show_nat (nat n))"

definition negNum :: "jsnum \<Rightarrow> jsnum" where
  "negNum n =
     (if n = ''0'' \<or> n = ''NaN'' then n
      else (case n of c # m \<Rightarrow> if c = CHR ''-'' then m else CHR ''-'' # n | [] \<Rightarrow> []))"

definition finiteNum :: "jsnum \<Rightarrow> bool" where
  "finiteNum n \<longleftrightarrow> n \<noteq> ''Infinity'' \<and> n \<noteq> ''-Infinity'' \<and> n \<noteq> ''NaN''"

definition strictEq :: "jsval \<Rightarrow> jsval \<Rightarrow> bool" where
  "strictEq a b = (case a of JNum n \<Rightarrow> a = b \<and> n \<noteq> ''NaN'' | _ \<Rightarrow> a = b)"

text \<open>
  The string a value is converted to, as a property key and in a comparison with
  \<^verbatim>\<open>==\<close>: an array is the join of its elements with commas, \<^verbatim>\<open>null\<close> and
  \<^verbatim>\<open>undefined\<close> elements giving the empty string. (No object of a tree has a
  property named \<^verbatim>\<open>toString\<close> or \<^verbatim>\<open>valueOf\<close>.)
\<close>

fun toKey :: "jsval \<Rightarrow> string"
  and joinElems :: "jsval list \<Rightarrow> string"
where
  "toKey JUndef = ''undefined''"
| "toKey JNull = ''null''"
| "toKey (JBool b) = (if b then ''true'' else ''false'')"
| "toKey (JNum n) = n"
| "toKey (JStr s) = s"
| "toKey (JObj fs) = ''[object Object]''"
| "toKey (JArr xs) = joinElems xs"
| "toKey (JRef v) = ''[object Object]''"
| "joinElems [] = []"
| "joinElems (x # xs) =
     (if x = JUndef \<or> x = JNull then [] else toKey x) @
     (if xs = [] then [] else CHR '','' # joinElems xs)"

text \<open>
  The own enumerable properties of a value, in \<^verbatim>\<open>for in\<close> order: the fields of an
  object, the indices of an array, the indices of a string.
\<close>

fun own_props :: "jsval \<Rightarrow> fields" where
  "own_props (JObj fs) = fs"
| "own_props (JArr xs) = zip (map show_nat [0..<length xs]) xs"
| "own_props (JStr s) = zip (map show_nat [0..<length s]) (map (\<lambda>c. JStr [c]) s)"
| "own_props v = []"

text \<open>
  Property read \<^verbatim>\<open>v[key]\<close> on a value that is neither \<^verbatim>\<open>null\<close> nor
  \<^verbatim>\<open>undefined\<close> (the callers check that first, since there the read throws).
  Besides the own properties, \<^verbatim>\<open>length\<close> of an array or a string is readable; the
  methods inherited from the prototypes are not modelled (no field of a syntax tree is
  named after one).
\<close>

definition getp :: "jsval \<Rightarrow> string \<Rightarrow> jsval" where
  "getp v k =
     (case map_of (own_props v) k of
        Some x \<Rightarrow> x
      | None \<Rightarrow>
          (case v of
             JArr xs \<Rightarrow> if k = ''length'' then JNum (show_nat (length xs)) else JUndef
           | JStr s \<Rightarrow> if k = ''length'' then JNum (show_nat (length s)) else JUndef
           | _ \<Rightarrow> JUndef))"

text \<open>Assignment \<^verbatim>\<open>obj[k] = x\<close> on a property list: an existing key keeps its place.\<close>

fun setf :: "fields \<Rightarrow> string \<Rightarrow> jsval \<Rightarrow> fields" where
  "setf [] k x = [(k, x)]"
| "setf ((k', y) # fs) k x = (if k' = k then (k, x) # fs else (k', y) # setf fs k x)"

section \<open>Constant folding\<close>

text \<open>
  \<^verbatim>\<open>foldConstants(tree)\<close> rewrites the tree in place, child by child. The model
  returns the rewritten tree; since an exception leaves the tree as far as it was
  rewritten (and \<^verbatim>\<open>match\<close> has stored the tree in its cache before folding), the
  tree is returned in the error case too, next to the error.

  \<open>isUnaryType\<close> is the test \<^verbatim>\<open>ast.type == esprima.Syntax.UnaryExpression\<close>: the
  comparison \<^verbatim>\<open>==\<close> with a string converts an array to a string first.
  \<open>foldUnary\<close> is the statement \<^verbatim>\<open>if (ast.type == ...) { ... }\<close>, giving the new
  value of \<^verbatim>\<open>tree[key]\<close>; reading \<^verbatim>\<open>argument.type\<close> throws when the argument is
  \<^verbatim>\<open>null\<close> or missing.
\<close>

definition isUnaryType :: "jsval \<Rightarrow> bool" where
  "isUnaryType t =
     (case t of
        JStr s \<Rightarrow> s = ''UnaryExpression''
      | JArr xs \<Rightarrow> joinElems xs = ''UnaryExpression''
      | _ \<Rightarrow> False)"

definition foldUnary :: "jsval \<Rightarrow> jsval \<times> error option" where
  "foldUnary ast =
     (if isUnaryType (getp ast ''type'') then
        (let argument = getp ast ''argument'' in
         if nullish argument then (ast, Some TypeError)
         else if getp argument ''type'' = JStr ''Literal'' \<and> isNumber (getp argument ''value'') then
           (case (argument, getp argument ''value'') of
              (JObj afs, JNum n) \<Rightarrow>
                if getp ast ''operator'' = JStr ''-'' then (JObj (setf afs ''value'' (JNum (negNum n))), None)
                else if getp ast ''operator'' = JStr ''+'' then (JObj (setf afs ''value'' (JNum n)), None)
                else (ast, None)
            | _ \<Rightarrow> (ast, None))
         else (ast, None))
      else (ast, None))"

fun foldConstants :: "jsval \<Rightarrow> jsval \<times> error option"
  and foldFields :: "fields \<Rightarrow> fields \<times> error option"
  and foldElems :: "jsval list \<Rightarrow> jsval list \<times> error option"
  and foldChild :: "jsval \<Rightarrow> jsval \<times> error option"
where
  "foldConstants (JObj fs) = (case foldFields fs of (fs', e) \<Rightarrow> (JObj fs', e))"
| "foldConstants (JArr xs) = (case foldElems xs of (xs', e) \<Rightarrow> (JArr xs', e))"
| "foldConstants JUndef = (JUndef, None)"
| "foldConstants JNull = (JNull, None)"
| "foldConstants (JBool b) = (JBool b, None)"
| "foldConstants (JNum n) = (JNum n, None)"
| "foldConstants (JStr s) = (JStr s, None)"
| "foldConstants (JRef v) = (JRef v, None)"
| "foldFields [] = ([], None)"
| "foldFields ((k, ast) # rest) =
     (case foldChild ast of
        (ast', Some e) \<Rightarrow> ((k, ast') # rest, Some e)
      | (ast', None) \<Rightarrow> (case foldFields rest of (rest', e) \<Rightarrow> ((k, ast') # rest', e)))"
| "foldElems [] = ([], None)"
| "foldElems (ast # rest) =
     (case foldChild ast of
        (ast', Some e) \<Rightarrow> (ast' # rest, Some e)
      | (ast', None) \<Rightarrow> (case foldElems rest of (rest', e) \<Rightarrow> (ast' # rest', e)))"
| "foldChild ast =
     (if isObject ast then
        (case foldConstants ast of
           (ast', Some e) \<Rightarrow> (ast', Some e)
         | (ast', None) \<Rightarrow> foldUnary ast')
      else (ast, None))"

section \<open>Matching state\<close>

text \<open>
  The objects the matching functions mutate: \<^verbatim>\<open>wVars\<close> (\<open>order\<close>, \<open>skipData\<close>,
  \<open>leftToSkip\<close>, which is \<^verbatim>\<open>undefined\<close> until \<^verbatim>\<open>anyPossible\<close> sets it, and
  \<open>vals\<close> for \<^verbatim>\<open>wVars.values\<close>, the binding cells), \<^verbatim>\<open>matchResults\<close>
  (\<open>anon\<close> for \<^verbatim>\<open>matchResults._\<close>, \<open>vars\<close>, \<open>root\<close>), the lines written with
  \<^verbatim>\<open>console.error\<close>, and \<^verbatim>\<open>varCallbacks.failure\<close>.
\<close>

record mstate =
  order :: "string list"
  skipData :: "string \<Rightarrow> nat option"
  leftToSkip :: "(string \<Rightarrow> nat option) option"
  vals :: "string \<Rightarrow> fields option"
  anon :: "jsval list"
  vars :: "string \<Rightarrow> jsval option"
  root :: "jsval option"
  errlog :: "string list"
  failure :: "string option"

text \<open>What a template position holds: a reference stands for the binding cell.\<close>

definition deref :: "mstate \<Rightarrow> jsval \<Rightarrow> jsval" where
  "deref st v =
     (case v of
        JRef n \<Rightarrow> (case vals st n of Some fs \<Rightarrow> JObj fs | None \<Rightarrow> JObj [])
      | _ \<Rightarrow> v)"

text \<open>\<^verbatim>\<open>_.extend(cell, source)\<close>: every enumerable property of the source is assigned.\<close>

definition extendObj :: "fields \<Rightarrow> fields \<Rightarrow> fields" where
  "extendObj cell props = foldl (\<lambda>c (k, x). setf c k x) cell props"



section \<open>Globs\<close>

text \<open>
  \<^verbatim>\<open>isGlob(node)\<close> yields the name of the glob (a value that counts as true) or a
  value that counts as false; the model returns the name or \<open>None\<close>.
  \<open>globNameOf\<close> is the first disjunct, on \<^verbatim>\<open>node.name\<close>: \<open>None\<close> when it is false and
  the second disjunct decides. A string and an array have \<^verbatim>\<open>indexOf\<close> and
  \<^verbatim>\<open>slice\<close>; the slice of an array is an array, which counts as true even when
  empty. Any other name that counts as true has no \<^verbatim>\<open>indexOf\<close> to call: the call
  throws.
\<close>

definition globNameOf :: "jsval \<Rightarrow> (error + jsval option) option" where
  "globNameOf node =
     (if truthy node \<and> truthy (getp node ''name'') then
        (case getp node ''name'' of
           JStr nm \<Rightarrow>
             if nm = ''glob_'' then Some (Inr (Some (JStr ''_'')))
             else if take 5 nm = ''glob$'' \<and> drop 5 nm \<noteq> [] then Some (Inr (Some (JStr (drop 5 nm))))
             else None
         | JArr xs \<Rightarrow>
             if take 1 xs = [JStr ''glob$''] then Some (Inr (Some (JArr (drop 5 xs)))) else None
         | _ \<Rightarrow> Some (Inl TypeError))
      else None)"

text \<open>Reading a property of a tree yields a smaller tree: the recursions below terminate.\<close>

lemma size_map_of: "map_of fs k = Some v \<Longrightarrow> size v < size_list (size_prod (\<lambda>x. 0) size) fs"
  by (induction fs) (auto split: if_splits)

lemma size_own_props: "map_of (own_props v) k = Some x \<Longrightarrow> isObject x \<Longrightarrow> size x < size v"
proof (cases v)
  case (JObj fs)
  assume "map_of (own_props v) k = Some x"
  with JObj show ?thesis using size_map_of[of fs k x] by simp
next
  case (JArr xs)
  assume "map_of (own_props v) k = Some x"
  with JArr have "x \<in> set xs" by (auto dest!: map_of_SomeD set_zip_rightD)
  then have "size x \<le> size_list size xs" by (simp add: size_list_estimation')
  with JArr show ?thesis by simp
next
  case (JStr s)
  assume "map_of (own_props v) k = Some x" "isObject x"
  with JStr show ?thesis by (auto dest!: map_of_SomeD set_zip_rightD)
qed auto

lemma size_getp: "isObject (getp v k) \<Longrightarrow> size (getp v k) < size v"
  unfolding getp_def using size_own_props[of v k]
  by (auto split: option.splits jsval.splits if_splits)


lemma show_nat_last: "show_nat n \<noteq> [] \<and> last (show_nat n) = ''0123456789'' ! (n mod 10)"
proof -
  have "show_nat n =
    (if n < 10 then [''0123456789'' ! n] else show_nat (n div 10) @ [''0123456789'' ! (n mod 10)])"
    by (rule show_nat.simps)
  then show ?thesis by (cases "n < 10") simp_all
qed

lemma show_nat_digit: "last (show_nat n) \<in> set ''0123456789''"
proof -
  have "n mod 10 < length ''0123456789''" by simp
  then have "''0123456789'' ! (n mod 10) \<in> set ''0123456789''" by (rule nth_mem)
  then show ?thesis by (simp only: show_nat_last)
qed

lemma show_nat_neq: "last k \<notin> set ''0123456789'' \<Longrightarrow> show_nat n \<noteq> k"
  using show_nat_digit[of n] by auto

lemma map_of_index_keys:
  assumes "last k \<notin> set ''0123456789''"
  shows "map_of (zip (map show_nat ns) xs) k = None"
proof -
  have "k \<notin> set (map show_nat ns)" using show_nat_neq[OF assms] by auto
  then have "k \<notin> fst ` set (zip (map show_nat ns) xs)"
    by (metis (no_types, lifting) image_iff in_set_zipE prod.collapse)
  then show ?thesis by (simp add: map_of_eq_None_iff)
qed

lemma getp_expression_size:
  assumes "truthy (getp v ''expression'')"
  shows "size (getp v ''expression'') < size v"
proof (cases v)
  case (JObj fs)
  with assms show ?thesis
    by (auto simp: getp_def split: option.splits dest: size_map_of)
next
  case (JArr xs)
  with assms show ?thesis by (simp add: getp_def map_of_index_keys)
next
  case (JStr s)
  with assms show ?thesis by (simp add: getp_def map_of_index_keys)
qed (use assms in \<open>auto simp: getp_def\<close>)

text \<open>
  \<open>isGlobP\<close> is \<^verbatim>\<open>isGlob\<close> on a value without references (a program node, or
  what a binding cell holds); \<open>isGlob\<close> is \<^verbatim>\<open>isGlob\<close> on a template node, where a
  reference is read through the binding cell it stands for.
\<close>

function isGlobP :: "jsval \<Rightarrow> error + jsval option" where
  "isGlobP node =
     (case globNameOf node of
        Some r \<Rightarrow> r
      | None \<Rightarrow>
          if truthy node \<and> truthy (getp node ''expression'') then isGlobP (getp node ''expression'')
          else Inr None)"
  by pat_completeness auto
termination
  by (relation "measure size") (auto simp: getp_expression_size)

fun isRef :: "jsval \<Rightarrow> bool" where
  "isRef (JRef v) = True"
| "isRef v = False"

function isGlob :: "mstate \<Rightarrow> jsval \<Rightarrow> error + jsval option" where
  "isGlob st node =
     (if isRef node then isGlobP (deref st node)
      else
        (case globNameOf node of
           Some r \<Rightarrow> r
         | None \<Rightarrow>
             if truthy node \<and> truthy (getp node ''expression'') then isGlob st (getp node ''expression'')
             else Inr None))"
  by pat_completeness auto
termination
  by (relation "measure (\<lambda>(st, node). size node)") (simp_all add: getp_expression_size)

declare isGlobP.simps [simp del] isGlob.simps [simp del]

section \<open>The matching engine\<close>

text \<open>
  \<open>keys_of\<close> are the keys \<^verbatim>\<open>for (var key in toFind)\<close> visits (each name once);
  \<open>children\<close> are the values \<^verbatim>\<open>checkMatchTree\<close> descends into: the own properties
  of \<^verbatim>\<open>currTree\<close> that are objects or arrays.
\<close>

definition keys_of :: "jsval \<Rightarrow> string list" where
  "keys_of v = remdups (map fst (own_props v))"

definition children :: "jsval \<Rightarrow> jsval list" where
  "children v = filter isObject (map snd (own_props v))"

text \<open>\<^verbatim>\<open>if (rootToSet) { matchResults.root = rootToSet; }\<close>\<close>

definition setRoot :: "jsval option \<Rightarrow> mstate \<Rightarrow> mstate" where
  "setRoot rootToSet st =
     (case rootToSet of
        Some r \<Rightarrow> if truthy r then st\<lparr>root := Some r\<rparr> else st
      | None \<Rightarrow> st)"

text \<open>
  A glob's capture list \<^verbatim>\<open>curGlob\<close> is stored in \<^verbatim>\<open>matchResults\<close> when it is
  created (pushed on \<^verbatim>\<open>matchResults._\<close> under the name \<^verbatim>\<open>_\<close>, stored in
  \<^verbatim>\<open>matchResults.vars\<close> otherwise) and grows afterwards through
  \<^verbatim>\<open>curGlob.push\<close>; nothing else writes to \<^verbatim>\<open>matchResults\<close> in between, so the
  stored list is the last entry of \<open>anon\<close>, or the entry of \<open>vars\<close>.
\<close>

definition registerGlob :: "jsval \<Rightarrow> jsval list \<Rightarrow> mstate \<Rightarrow> mstate" where
  "registerGlob g cur st =
     (if g = JStr ''_'' then st\<lparr>anon := anon st @ [JArr cur]\<rparr>
      else st\<lparr>vars := (vars st)(toKey g \<mapsto> JArr cur)\<rparr>)"

definition pushGlob :: "jsval \<Rightarrow> jsval list \<Rightarrow> mstate \<Rightarrow> mstate" where
  "pushGlob g cur st =
     (if g = JStr ''_'' then st\<lparr>anon := butlast (anon st) @ [JArr cur]\<rparr>
      else st\<lparr>vars := (vars st)(toKey g \<mapsto> JArr cur)\<rparr>)"

text \<open>The test before \<^verbatim>\<open>console.error("Object/array/other type mismatch.")\<close>.\<close>

definition mismatch :: "jsval \<Rightarrow> jsval \<Rightarrow> bool" where
  "mismatch subCurr subFind \<longleftrightarrow>
     isObject subCurr \<noteq> isObject subFind \<or> isArray subCurr \<noteq> isArray subFind \<or>
     typeof subCurr \<noteq> typeof subFind"

text \<open>
  The matching functions return \<^verbatim>\<open>matchResults\<close> (true) or \<^verbatim>\<open>false\<close>, or
  throw. They mutate \<^verbatim>\<open>wVars\<close>, \<^verbatim>\<open>matchResults\<close> and the array
  \<^verbatim>\<open>peersToFind\<close> (\<^verbatim>\<open>shift\<close> in \<^verbatim>\<open>checkNodeArray\<close>), which the caller goes on
  using: the model returns the peers left and the state next to the boolean.
\<close>

type_synonym res = "error + (bool \<times> jsval list \<times> mstate)"

text \<open>
  The branch \<^verbatim>\<open>if (key === "wildcardVar")\<close> of \<^verbatim>\<open>exactMatchNode\<close>:
  \<^verbatim>\<open>subFind\<close> is the name of the variable. \<^verbatim>\<open>wVars.leftToSkip\<close> is undefined
  unless \<^verbatim>\<open>anyPossible\<close> has set it, and reading a property of it throws then.
  \<^verbatim>\<open>_.extend(cell, currNode)\<close> copies the properties of \<^verbatim>\<open>currNode\<close> when it is an
  object and nothing when it is not, and does nothing when the cell does not exist.
  \<^verbatim>\<open>subFind.slice(1)\<close> is the name the binding is stored under; a string and an array
  have \<^verbatim>\<open>slice\<close>, on any other name the call throws. (The name is not the name of
  a property of \<^verbatim>\<open>Object.prototype\<close>.)
\<close>

definition copied :: "jsval \<Rightarrow> fields" where
  "copied source = (if isObject source then own_props source else [])"

definition sliceKey :: "jsval \<Rightarrow> string option" where
  "sliceKey subFind =
     (case subFind of
        JStr v \<Rightarrow> Some (drop 1 v)
      | JArr xs \<Rightarrow> Some (joinElems (drop 1 xs))
      | _ \<Rightarrow> None)"

definition bindVar :: "jsval \<Rightarrow> jsval \<Rightarrow> jsval option \<Rightarrow> jsval list \<Rightarrow> mstate \<Rightarrow> res" where
  "bindVar currNode subFind rootToSet peers st =
     (case leftToSkip st of
        None \<Rightarrow> Inl TypeError
      | Some lts \<Rightarrow>
          (case lts (toKey subFind) of
             Some (Suc n) \<Rightarrow>
               Inr (False, peers, st\<lparr>leftToSkip := Some (lts(toKey subFind \<mapsto> n))\<rparr>)
           | _ \<Rightarrow>
               (case sliceKey subFind of
                  None \<Rightarrow> Inl TypeError
                | Some name \<Rightarrow>
                    Inr (True, peers,
                      setRoot rootToSet
                        (st\<lparr>vals :=
                              (case vals st (toKey subFind) of
                                 None \<Rightarrow> vals st
                               | Some cell \<Rightarrow>
                                   (vals st)(toKey subFind \<mapsto> extendObj cell (copied currNode))),
                            vars := (vars st)(name \<mapsto> currNode)\<rparr>)))))"

text \<open>The elements of an array.\<close>

definition elems :: "jsval \<Rightarrow> jsval list" where
  "elems v = (case v of JArr xs \<Rightarrow> xs | _ \<Rightarrow> [])"

text \<open>
  One pass through the body of \<^verbatim>\<open>for (var key in toFind)\<close> in
  \<^verbatim>\<open>exactMatchNode\<close>, up to its recursive call: the pass goes on to the next key
  (\<open>Next\<close>, \<^verbatim>\<open>continue\<close>), returns (\<open>Return\<close>), or compares the two arrays
  (\<open>InArray\<close>, with \<^verbatim>\<open>subCurr\<close>, \<^verbatim>\<open>subFind[0]\<close> and \<^verbatim>\<open>subFind.slice(1)\<close>)
  or the two objects (\<open>InTree\<close>) recursively. The template's value is read at each
  pass, through the binding cell when \<^verbatim>\<open>toFind\<close> is a reference.
\<close>

datatype step =
    Next mstate
  | Return res
  | InArray "jsval list" jsval "jsval list"
  | InTree jsval jsval

definition keyStep :: "jsval \<Rightarrow> jsval \<Rightarrow> string \<Rightarrow> jsval option \<Rightarrow> jsval list \<Rightarrow> mstate \<Rightarrow> step" where
  "keyStep currNode toFind key rootToSet peersToFind st =
     (let subFind = getp (deref st toFind) key in
      if subFind = JNull then Next st
      else if nullish currNode then Return (Inl TypeError)
      else
        (let subCurr = getp currNode key in
         if subFind = JUndef then
           (if nullish subCurr then Return (Inr (False, peersToFind, st))
            else Next (if \<not> truthy (getp subCurr ''body'') then st\<lparr>anon := anon st @ [subCurr]\<rparr> else st))
         else if nullish subCurr then
           (if key = ''wildcardVar'' then Return (bindVar currNode subFind rootToSet peersToFind st)
            else Return (Inr (False, peersToFind, st)))
         else if mismatch subCurr subFind then
           Return (Inr (False, peersToFind,
             st\<lparr>errlog := errlog st @ [''Object/array/other type mismatch.'']\<rparr>))
         else if isArray subCurr then
           (case elems subFind of
              [] \<Rightarrow> Next st
            | newToFind # peers \<Rightarrow> InArray (elems subCurr) newToFind peers)
         else if isObject subCurr then InTree subCurr subFind
         else if \<not> strictEq subCurr subFind then Return (Inr (False, peersToFind, st))
         else Next st))"

text \<open>Termination: every recursive call is on a part of the program node.\<close>

lemma size_list_filter_le: "size_list f (filter P xs) \<le> size_list f xs"
  by (induction xs) auto

lemma size_list_snd_le: "size_list size (map snd fs) \<le> size_list (size_prod (\<lambda>x. 0) size) fs"
  by (induction fs) auto

lemma children_JStr: "children (JStr s) = []"
proof -
  have "\<forall>x \<in> set (map snd (own_props (JStr s))). \<not> isObject x"
    by (auto dest!: set_zip_rightD)
  then show ?thesis unfolding children_def by (simp only: filter_False)
qed

lemma children_size: "size_list size (children v) \<le> size v"
proof (cases v)
  case (JObj fs)
  have "size_list size (children v) \<le> size_list size (map snd fs)"
    unfolding children_def JObj by (simp only: own_props.simps size_list_filter_le)
  also have "\<dots> \<le> size_list (size_prod (\<lambda>x. 0) size) fs" by (rule size_list_snd_le)
  finally show ?thesis using JObj by simp
next
  case (JArr xs)
  have "map snd (own_props v) = xs" unfolding JArr by (simp add: map_snd_zip)
  then have "size_list size (children v) \<le> size_list size xs"
    unfolding children_def by (simp only: size_list_filter_le)
  then show ?thesis using JArr by simp
next
  case (JStr s)
  then show ?thesis by (simp add: children_JStr)
qed (simp_all add: children_def)

lemma elems_size: "isArray c \<Longrightarrow> size_list size (elems c) < size c"
  by (cases c) (simp_all add: elems_def)

lemma keyStep_InArray:
  "keyStep currNode toFind key rootToSet peersToFind st = InArray nodeArr newToFind peers \<Longrightarrow>
   isArray (getp currNode key) \<and> nodeArr = elems (getp currNode key) \<and>
   elems (getp (deref st toFind) key) = newToFind # peers"
  unfolding keyStep_def Let_def by (simp split: if_splits list.splits)

lemma keyStep_InTree:
  "keyStep currNode toFind key rootToSet peersToFind st = InTree subCurr subFind \<Longrightarrow>
   isObject subCurr \<and> subCurr = getp currNode key \<and> subFind = getp (deref st toFind) key"
  unfolding keyStep_def Let_def by (simp split: if_splits list.splits)

lemma keyStep_InArray_size:
  assumes "keyStep currNode toFind key rootToSet peersToFind st = InArray nodeArr newToFind peers"
  shows "size_list size nodeArr < size currNode"
proof -
  from keyStep_InArray[OF assms]
  have a: "isArray (getp currNode key)" and n: "nodeArr = elems (getp currNode key)" by simp_all
  from a have "isObject (getp currNode key)" by (cases "getp currNode key") simp_all
  then have "size (getp currNode key) < size currNode" by (rule size_getp)
  moreover have "size_list size nodeArr < size (getp currNode key)"
    unfolding n using a by (rule elems_size)
  ultimately show ?thesis by simp
qed

lemma keyStep_InTree_size:
  assumes "keyStep currNode toFind key rootToSet peersToFind st = InTree subCurr subFind"
  shows "size subCurr < size currNode"
  using keyStep_InTree[OF assms] size_getp[of currNode key] by auto

lemma children_size': "size_list size (children v) < size v \<or> size_list size (children v) = size v"
  using children_size[of v] by arith

lemma elems_size': "isArray c \<Longrightarrow> size_list size (elems c) < Suc (size c + n)"
  using elems_size[of c] by arith

lemma keyStep_InArray_size':
  "keyStep currNode toFind key rootToSet peersToFind st = InArray nodeArr newToFind peers \<Longrightarrow>
   size_list size nodeArr < size currNode \<or> size_list size nodeArr = size currNode"
  using keyStep_InArray_size by blast

text \<open>
  \<open>checkChildren\<close> is the loop \<^verbatim>\<open>for (var key in currTree)\<close> of
  \<^verbatim>\<open>checkMatchTree\<close>; \<open>checkNodeArray\<close> takes the elements of \<^verbatim>\<open>nodeArr\<close> from
  index \<^verbatim>\<open>i\<close> on and the current \<^verbatim>\<open>curGlob\<close> (with the name it is stored under),
  \<open>None\<close> at the call; \<open>exactMatchKeys\<close> is the loop
  \<^verbatim>\<open>for (var key in toFind)\<close> of \<^verbatim>\<open>exactMatchNode\<close> on the keys still to visit,
  and the statements after it. \<open>single\<close> is \<^verbatim>\<open>options.single\<close>. The log line
  \<open>toFind\<close> stands for the array that \<^verbatim>\<open>console.error(toFind)\<close> prints.
\<close>

function checkMatchTree :: "bool \<Rightarrow> jsval \<Rightarrow> jsval \<Rightarrow> jsval list \<Rightarrow> mstate \<Rightarrow> res"
  and checkChildren :: "bool \<Rightarrow> jsval list \<Rightarrow> jsval \<Rightarrow> jsval list \<Rightarrow> mstate \<Rightarrow> res"
  and checkNodeArray ::
    "bool \<Rightarrow> jsval list \<Rightarrow> jsval \<Rightarrow> jsval list \<Rightarrow> (jsval \<times> jsval list) option \<Rightarrow> mstate \<Rightarrow> res"
  and exactMatchNode :: "bool \<Rightarrow> jsval \<Rightarrow> jsval \<Rightarrow> jsval list \<Rightarrow> mstate \<Rightarrow> res"
  and exactMatchKeys ::
    "bool \<Rightarrow> jsval \<Rightarrow> jsval \<Rightarrow> string list \<Rightarrow> jsval option \<Rightarrow> jsval list \<Rightarrow> mstate \<Rightarrow> res"
where
  "checkMatchTree single currTree toFind peersToFind st =
     (case exactMatchNode single currTree toFind peersToFind
             (if isArray toFind
              then st\<lparr>errlog := errlog st @ [''toFind should never be an array.'', ''toFind'']\<rparr>
              else st) of
        Inl e \<Rightarrow> Inl e
      | Inr (found, peers1, st1) \<Rightarrow>
          if found then Inr (True, peers1, st1)
          else if single then Inr (False, peers1, st1)
          else checkChildren single (children currTree) toFind peers1 st1)"
| "checkChildren single [] toFind peersToFind st = Inr (False, peersToFind, st)"
| "checkChildren single (c # cs) toFind peersToFind st =
     (case (if isArray c then checkNodeArray single (elems c) toFind peersToFind None st
            else checkMatchTree single c toFind peersToFind st) of
        Inl e \<Rightarrow> Inl e
      | Inr (found, peers1, st1) \<Rightarrow>
          if found then Inr (True, peers1, st1)
          else checkChildren single cs toFind peers1 st1)"
| "checkNodeArray single [] toFind peersToFind curGlob st =
     (if curGlob \<noteq> None then Inr (True, peersToFind, st)
      else
        (case isGlob st toFind of
           Inl e \<Rightarrow> Inl e
         | Inr None \<Rightarrow> Inr (False, peersToFind, st)
         | Inr (Some globName) \<Rightarrow> Inr (True, peersToFind, registerGlob globName [] st)))"
| "checkNodeArray single (x # xs) toFind peersToFind curGlob st =
     (case isGlob st toFind of
        Inl e \<Rightarrow> Inl e
      | Inr (Some globName) \<Rightarrow>
          (case curGlob of
             None \<Rightarrow>
               checkNodeArray single xs toFind peersToFind (Some (globName, [x]))
                 (pushGlob globName [x] (registerGlob globName [] st))
           | Some (g, cur) \<Rightarrow>
               checkNodeArray single xs toFind peersToFind (Some (g, cur @ [x]))
                 (pushGlob g (cur @ [x]) st))
      | Inr None \<Rightarrow>
          (case checkMatchTree single x toFind peersToFind st of
             Inl e \<Rightarrow> Inl e
           | Inr (found, peers1, st1) \<Rightarrow>
               if found then
                 (if peers1 = [] then Inr (True, peers1, st1)
                  else checkNodeArray single xs (hd peers1) (tl peers1) curGlob st1)
               else checkNodeArray single xs toFind peers1 curGlob st1))"
| "exactMatchNode single currNode toFind peersToFind st =
     (if root st = None \<and> nullish currNode then Inl TypeError
      else exactMatchKeys single currNode toFind (keys_of (deref st toFind))
             (if root st = None \<and> getp currNode ''type'' \<noteq> JStr ''Program'' then Some currNode else None)
             peersToFind st)"
| "exactMatchKeys single currNode toFind [] rootToSet peersToFind st =
     Inr (True, peersToFind,
       setRoot rootToSet (if toFind = JUndef then st\<lparr>anon := anon st @ [currNode]\<rparr> else st))"
| "exactMatchKeys single currNode toFind (key # keys) rootToSet peersToFind st =
     (case keyStep currNode toFind key rootToSet peersToFind st of
        Next st1 \<Rightarrow> exactMatchKeys single currNode toFind keys rootToSet peersToFind st1
      | Return r \<Rightarrow> r
      | InArray nodeArr newToFind peers \<Rightarrow>
          (case checkNodeArray single nodeArr newToFind peers None st of
             Inl e \<Rightarrow> Inl e
           | Inr (found, peers1, st1) \<Rightarrow>
               if found then exactMatchKeys single currNode toFind keys rootToSet peersToFind st1
               else Inr (False, peersToFind, st1))
      | InTree subCurr subFind \<Rightarrow>
          (case checkMatchTree single subCurr subFind peersToFind st of
             Inl e \<Rightarrow> Inl e
           | Inr (found, peers1, st1) \<Rightarrow>
               if found then exactMatchKeys single currNode toFind keys rootToSet peers1 st1
               else Inr (False, peers1, st1)))"
  by pat_completeness (auto split del: if_split)
termination
  apply (relation "inv_image (less_than <*lex*> less_than <*lex*> less_than)
     (\<lambda>x. case x of
        Inl (Inl (single, currTree, toFind, peers, st)) \<Rightarrow> (size currTree, 3::nat, 0::nat)
      | Inl (Inr (single, cs, toFind, peers, st)) \<Rightarrow> (size_list size cs, 0, 0)
      | Inr (Inl (single, xs, toFind, peers, g, st)) \<Rightarrow> (size_list size xs, 0, 0)
      | Inr (Inr (Inl (single, currNode, toFind, peers, st))) \<Rightarrow> (size currNode, 2, 0)
      | Inr (Inr (Inr (single, currNode, toFind, keys, r, peers, st))) \<Rightarrow> (size currNode, 1, length keys))")
        apply (intro wf_inv_image wf_lex_prod wf_less_than)
  apply (simp_all add: keyStep_InTree_size children_size' elems_size' keyStep_InArray_size')
  done


declare checkMatchTree.simps [simp del] exactMatchNode.simps [simp del]

section \<open>Template normalisation\<close>

definition isWildcard :: "jsval \<Rightarrow> bool" where
  "isWildcard node \<longleftrightarrow> getp node ''name'' = JStr ''_'' \<or> getp node ''body'' = JArr []"

definition isWildcardVar :: "jsval \<Rightarrow> bool" where
  "isWildcardVar node \<longleftrightarrow>
     (case getp node ''name'' of
        JStr nm \<Rightarrow> length nm \<ge> 2 \<and> hd nm = CHR ''$''
      | _ \<Rightarrow> False)"

definition varNameOf :: "jsval \<Rightarrow> string" where
  "varNameOf node = (case getp node ''name'' of JStr nm \<Rightarrow> nm | _ \<Rightarrow> [])"

text \<open>
  \<^verbatim>\<open>simplifyTree(tree, wVars)\<close> rewrites the template in place. \<open>simplifyChild\<close> is
  the body of its loop for one \<^verbatim>\<open>tree[key]\<close>, giving the new value, or \<open>None\<close> when
  the empty statement is removed. \<^verbatim>\<open>delete tree[key]\<close> removes the field of an
  object. In an array, \<^verbatim>\<open>tree.splice(key, 1)\<close> moves the elements behind one index
  down while \<^verbatim>\<open>for (var key in tree)\<close> goes on with the next index: the element that
  followed the empty statement now stands at the index just visited and is not visited,
  and the last index no longer exists.
\<close>

fun simplifyTree :: "jsval \<Rightarrow> mstate \<Rightarrow> jsval \<times> mstate"
  and simplifyFields :: "fields \<Rightarrow> mstate \<Rightarrow> fields \<times> mstate"
  and simplifyElems :: "jsval list \<Rightarrow> mstate \<Rightarrow> jsval list \<times> mstate"
  and simplifyChild :: "jsval \<Rightarrow> mstate \<Rightarrow> jsval option \<times> mstate"
where
  "simplifyTree (JObj fs) st = (case simplifyFields fs st of (fs', st') \<Rightarrow> (JObj fs', st'))"
| "simplifyTree (JArr xs) st = (case simplifyElems xs st of (xs', st') \<Rightarrow> (JArr xs', st'))"
| "simplifyTree JUndef st = (JUndef, st)"
| "simplifyTree JNull st = (JNull, st)"
| "simplifyTree (JBool b) st = (JBool b, st)"
| "simplifyTree (JNum n) st = (JNum n, st)"
| "simplifyTree (JStr s) st = (JStr s, st)"
| "simplifyTree (JRef v) st = (JRef v, st)"
| "simplifyFields [] st = ([], st)"
| "simplifyFields ((key, v) # rest) st =
     (case simplifyChild v st of
        (Some v', st') \<Rightarrow> (case simplifyFields rest st' of (rest', st'') \<Rightarrow> ((key, v') # rest', st''))
      | (None, st') \<Rightarrow> simplifyFields rest st')"
| "simplifyElems [] st = ([], st)"
| "simplifyElems (v # rest) st =
     (case simplifyChild v st of
        (Some v', st') \<Rightarrow> (case simplifyElems rest st' of (rest', st'') \<Rightarrow> (v' # rest', st''))
      | (None, st') \<Rightarrow>
          (case rest of
             [] \<Rightarrow> ([], st')
           | skipped # rest' \<Rightarrow>
               (case simplifyElems rest' st' of (rest'', st'') \<Rightarrow> (skipped # rest'', st''))))"
| "simplifyChild v st =
     (if isObject v then
        (if isWildcard v then (Some JUndef, st)
         else if isWildcardVar v then
           (if vals st (varNameOf v) = None then
              (Some (JObj [(''wildcardVar'', JStr (varNameOf v))]),
               st\<lparr>vals := (vals st)(varNameOf v \<mapsto> []),
                  order := order st @ [varNameOf v],
                  skipData := (skipData st)(varNameOf v \<mapsto> 0)\<rparr>)
            else (Some (JRef (varNameOf v)), st))
         else if getp v ''type'' = JStr ''EmptyStatement'' then (None, st)
         else (case simplifyTree v st of (v', st') \<Rightarrow> (Some v', st')))
      else (Some v, st))"


section \<open>Cloning\<close>

text \<open>
  \<^verbatim>\<open>JSON.parse(JSON.stringify(obj))\<close>: a field holding \<^verbatim>\<open>undefined\<close> is dropped,
  an array element holding it becomes \<^verbatim>\<open>null\<close>, a number that is not finite
  (\<^verbatim>\<open>Infinity\<close>, which the parser gives for a literal like \<^verbatim>\<open>1e999\<close>, and
  \<^verbatim>\<open>NaN\<close>) becomes \<^verbatim>\<open>null\<close>, and \<^verbatim>\<open>JSON.parse(undefined)\<close> throws a syntax
  error.
\<close>

fun jsonClone :: "jsval \<Rightarrow> jsval"
  and jsonFields :: "fields \<Rightarrow> fields"
  and jsonElems :: "jsval list \<Rightarrow> jsval list"
where
  "jsonClone (JObj fs) = JObj (jsonFields fs)"
| "jsonClone (JArr xs) = JArr (jsonElems xs)"
| "jsonClone JUndef = JUndef"
| "jsonClone JNull = JNull"
| "jsonClone (JBool b) = JBool b"
| "jsonClone (JNum n) = (if finiteNum n then JNum n else JNull)"
| "jsonClone (JStr s) = JStr s"
| "jsonClone (JRef v) = JObj []"
| "jsonFields [] = []"
| "jsonFields ((k, v) # rest) =
     (if v = JUndef then jsonFields rest else (k, jsonClone v) # jsonFields rest)"
| "jsonElems [] = []"
| "jsonElems (v # rest) = (if v = JUndef then JNull else jsonClone v) # jsonElems rest"

definition deepClone :: "jsval \<Rightarrow> error + jsval" where
  "deepClone obj = (if obj = JUndef then Inl SyntaxError else Inr (jsonClone obj))"

section \<open>Variable callbacks\<close>

text \<open>
  \<^verbatim>\<open>property.split(",")\<close> and \<^verbatim>\<open>stringLeftTrim\<close>, which removes the white space
  and the line ends at both ends of the string (\<open>isSpace\<close> lists the ones below 256).
\<close>

fun split_on :: "char \<Rightarrow> string \<Rightarrow> string list" where
  "split_on c [] = [[]]"
| "split_on c (x # xs) =
     (if x = c then [] # split_on c xs
      else (case split_on c xs of y # ys \<Rightarrow> (x # y) # ys | [] \<Rightarrow> [[x]]))"

definition isSpace :: "char \<Rightarrow> bool" where
  "isSpace c \<longleftrightarrow> c \<in> set [CHR 0x09, CHR 0x0A, CHR 0x0B, CHR 0x0C, CHR 0x0D, CHR 0x20, CHR 0xA0]"

definition stringLeftTrim :: "string \<Rightarrow> string" where
  "stringLeftTrim str = rev (dropWhile isSpace (rev (dropWhile isSpace str)))"

text \<open>
  A callback is a function of the caller; it is taken to return (a callback that throws
  or loops is outside the model). Its result counts as true (\<open>Accept\<close>), as false
  (\<open>Reject\<close>), or has a \<^verbatim>\<open>failure\<close> property (\<open>Failure\<close>).
  \<^verbatim>\<open>varCallbacks\<close> is the list of its properties in \<^verbatim>\<open>for in\<close> order.
\<close>

datatype cbresult = Accept | Reject | Failure string

type_synonym callback = "jsval list \<Rightarrow> cbresult"

text \<open>
  For one property of \<^verbatim>\<open>varCallbacks\<close>: the variable names it lists, the argument
  passed for a name (a clone of the binding cell, or \<^verbatim>\<open>undefined\<close> for a name that
  \<^verbatim>\<open>wVars.values\<close> does not have), and the lines logged for the names it does not
  have.
\<close>

definition varNamesOf :: "string \<Rightarrow> string list" where
  "varNamesOf property = map stringLeftTrim (split_on CHR '','' property)"

definition varValue :: "mstate \<Rightarrow> string \<Rightarrow> jsval" where
  "varValue st varName =
     (case vals st varName of None \<Rightarrow> JUndef | Some cell \<Rightarrow> jsonClone (JObj cell))"

definition missingVars :: "mstate \<Rightarrow> string \<Rightarrow> string list" where
  "missingVars st property =
     concat (map (\<lambda>varName. if vals st varName = None
                             then [''Callback var '' @ varName @ '' doesn't exist''] else [])
               (varNamesOf property))"

fun callbackLoop :: "(string \<times> callback) list \<Rightarrow> mstate \<Rightarrow> bool \<times> mstate" where
  "callbackLoop [] st = (True, st)"
| "callbackLoop ((property, cb) # rest) st =
     (case cb (map (varValue st) (varNamesOf property)) of
        Accept \<Rightarrow> callbackLoop rest (st\<lparr>errlog := errlog st @ missingVars st property\<rparr>)
      | Reject \<Rightarrow> (False, st\<lparr>errlog := errlog st @ missingVars st property\<rparr>)
      | Failure msg \<Rightarrow>
          (False, st\<lparr>errlog := errlog st @ missingVars st property, failure := Some msg\<rparr>))"

text \<open>
  \<^verbatim>\<open>delete varCallbacks.failure\<close> removes the property of that name, also when the
  caller put a callback there: the loop runs over the other properties.
\<close>

definition registered :: "(string \<times> callback) list \<Rightarrow> (string \<times> callback) list" where
  "registered varCallbacks = filter (\<lambda>(property, cb). property \<noteq> ''failure'') varCallbacks"

definition checkUserVarCallbacks :: "mstate \<Rightarrow> (string \<times> callback) list \<Rightarrow> bool \<times> mstate" where
  "checkUserVarCallbacks st varCallbacks =
     callbackLoop (registered varCallbacks) (st\<lparr>failure := None\<rparr>)"

section \<open>The search over skip counts\<close>

text \<open>
  The pieces of the \<^verbatim>\<open>do ... while\<close> loop of \<^verbatim>\<open>anyPossible\<close>: \<open>resetLater\<close>
  resets the skip counts of the later variables, \<open>clearValues\<close> empties every binding
  cell and copies \<^verbatim>\<open>skipData\<close> to \<^verbatim>\<open>leftToSkip\<close>, \<open>attempt\<close> is one run of
  \<^verbatim>\<open>checkMatchTree\<close> (on a copy of the peers) followed by the callbacks,
  \<open>skipNext\<close> is \<^verbatim>\<open>wVars.skipData[order[i]] += 1\<close>.
\<close>

definition resetLater :: "nat \<Rightarrow> mstate \<Rightarrow> mstate" where
  "resetLater i st =
     st\<lparr>skipData := (\<lambda>v. if v \<in> set (drop (Suc i) (order st)) then Some 0 else skipData st v)\<rparr>"

definition clearValues :: "mstate \<Rightarrow> mstate" where
  "clearValues st =
     st\<lparr>vals := (\<lambda>v. map_option (\<lambda>cell. []) (vals st v)), leftToSkip := Some (skipData st)\<rparr>"

definition attempt ::
  "jsval \<Rightarrow> jsval \<Rightarrow> jsval list \<Rightarrow> (string \<times> callback) list \<Rightarrow> mstate \<Rightarrow> error + bool \<times> mstate" where
  "attempt codeTree toFind peers varCallbacks st =
     (case checkMatchTree False codeTree toFind peers (clearValues st) of
        Inl e \<Rightarrow> Inl e
      | Inr (found, peers1, st1) \<Rightarrow>
          if found then Inr (checkUserVarCallbacks st1 varCallbacks) else Inr (False, st1))"

definition skipNext :: "nat \<Rightarrow> mstate \<Rightarrow> mstate" where
  "skipNext i st =
     st\<lparr>skipData := (skipData st)(order st ! i \<mapsto>
        Suc (case skipData st (order st ! i) of Some k \<Rightarrow> k | None \<Rightarrow> 0))\<rparr>"

definition isEmptyCell :: "mstate \<Rightarrow> string \<Rightarrow> bool" where
  "isEmptyCell st v \<longleftrightarrow> (case vals st v of Some cell \<Rightarrow> cell = [] | None \<Rightarrow> True)"

text \<open>
  \<open>anyPossibleLoop\<close> is the \<^verbatim>\<open>do ... while\<close> loop of \<^verbatim>\<open>anyPossible(i, ...)\<close>;
  a loop that runs forever is the value \<open>None\<close>.
\<close>

partial_function (option) anyPossibleLoop ::
  "jsval \<Rightarrow> jsval \<Rightarrow> jsval list \<Rightarrow> (string \<times> callback) list \<Rightarrow> nat \<Rightarrow> mstate
   \<Rightarrow> (error + bool \<times> mstate) option"
where
  "anyPossibleLoop codeTree toFind peers varCallbacks i st =
     Option.bind
       (if i = length (order st) - 1
        then Some (attempt codeTree toFind peers varCallbacks (resetLater i st))
        else anyPossibleLoop codeTree toFind peers varCallbacks (i + 1)
               ((resetLater i st)\<lparr>skipData := (skipData (resetLater i st))(order st ! (i + 1) \<mapsto> 0)\<rparr>))
       (\<lambda>r. case r of
               Inl e \<Rightarrow> Some (Inl e)
             | Inr (found, st2) \<Rightarrow>
                 if found then Some (Inr (True, st2))
                 else if \<not> isEmptyCell st2 (order st2 ! i)
                 then anyPossibleLoop codeTree toFind peers varCallbacks i (skipNext i st2)
                 else Some (Inr (False, skipNext i st2)))"

declare anyPossibleLoop.simps [code]

definition anyPossible ::
  "jsval \<Rightarrow> jsval \<Rightarrow> jsval list \<Rightarrow> (string \<times> callback) list \<Rightarrow> nat \<Rightarrow> mstate
   \<Rightarrow> (error + bool \<times> mstate) option" where
  "anyPossible codeTree toFind peers varCallbacks i st =
     anyPossibleLoop codeTree toFind peers varCallbacks i
       (st\<lparr>skipData := (skipData st)(order st ! i \<mapsto> 0)\<rparr>)"

section \<open>match\<close>

text \<open>
  The program is source text or a tree the caller has parsed; the cache compares it with
  \<^verbatim>\<open>===\<close>, which on objects is identity: \<open>CodeObj i obj\<close> is the object with
  identity \<open>i\<close> and contents \<open>obj\<close>. The template is source text (a string, or a
  function read through its source text) or a tree. The parser \<^verbatim>\<open>esprima.parse\<close> is
  a parameter; it converts what it is given to a string.

  Only a value whose \<^verbatim>\<open>typeof\<close> is \<^verbatim>\<open>"object"\<close> (an object, an array,
  \<^verbatim>\<open>null\<close>) is cloned as a tree. Any other value passed in the place of a tree is
  treated as text; \<^verbatim>\<open>===\<close> compares such values by content, and
  \<^verbatim>\<open>cachedCode\<close> is \<^verbatim>\<open>undefined\<close> (\<open>None\<close>) until the first call.
\<close>

datatype code = CodeText string | CodeObj nat jsval

datatype template = StructText string | StructObj jsval

record global =
  structureCache :: "string \<Rightarrow> jsval option"
  cachedCode :: "code option"
  cachedCodeTree :: jsval

record options =
  single :: bool
  varCallbacks :: "(string \<times> callback) list"

definition codeValue :: "code \<Rightarrow> jsval" where
  "codeValue code = (case code of CodeText s \<Rightarrow> JStr s | CodeObj i obj \<Rightarrow> obj)"

definition structureValue :: "template \<Rightarrow> jsval" where
  "structureValue struct = (case struct of StructText s \<Rightarrow> JStr s | StructObj obj \<Rightarrow> obj)"

definition sameCode :: "code option \<Rightarrow> code \<Rightarrow> bool" where
  "sameCode cached code =
     (case cached of
        None \<Rightarrow> codeValue code = JUndef
      | Some c \<Rightarrow>
          if isObject (codeValue c) \<or> isObject (codeValue code) then
            (case (c, code) of
               (CodeObj i v, CodeObj j w) \<Rightarrow> isObject v \<and> isObject w \<and> i = j
             | _ \<Rightarrow> False)
          else strictEq (codeValue c) (codeValue code))"

definition functionBody :: "jsval \<Rightarrow> error + jsval" where
  "functionBody fullTree =
     (if nullish fullTree \<or> nullish (getp fullTree ''body'')
         \<or> nullish (getp (getp fullTree ''body'') ''0'')
         \<or> nullish (getp (getp (getp fullTree ''body'') ''0'') ''expression'')
      then Inl TypeError
      else
        (let expression = getp (getp (getp fullTree ''body'') ''0'') ''expression'' in
         if getp expression ''type'' \<noteq> JStr ''FunctionExpression'' \<or> \<not> truthy (getp expression ''body'')
         then Inl PoorlyFormatted
         else Inr (getp expression ''body'')))"

text \<open>
  \<^verbatim>\<open>structureCache\<close> is a plain object: \<^verbatim>\<open>structureCache[structure]\<close> also finds
  the properties it inherits from \<^verbatim>\<open>Object.prototype\<close>, which count as true and are
  no JSON text, so that \<^verbatim>\<open>JSON.parse\<close> throws a syntax error. The cache holds the
  JSON text of a tree; \<open>structureCache\<close> gives the tree that \<^verbatim>\<open>JSON.parse\<close> builds
  from it.
\<close>

definition inheritedKeys :: "string list" where
  "inheritedKeys =
     [''constructor'', ''toString'', ''toLocaleString'', ''valueOf'', ''hasOwnProperty'',
      ''isPrototypeOf'', ''propertyIsEnumerable'', ''__proto__'', ''__defineGetter__'',
      ''__defineSetter__'', ''__lookupGetter__'', ''__lookupSetter__'']"

definition parseStructure ::
  "(string \<Rightarrow> error + jsval) \<Rightarrow> (string \<Rightarrow> jsval option) \<Rightarrow> template
   \<Rightarrow> (string \<Rightarrow> jsval option) \<times> (error + jsval)" where
  "parseStructure parse cache struct =
     (if typeof (structureValue struct) = ''object'' then (cache, deepClone (structureValue struct))
      else
        (let src = toKey (structureValue struct) in
         case cache src of
           Some json \<Rightarrow> (cache, Inr json)
         | None \<Rightarrow>
             if src \<in> set inheritedKeys then (cache, Inl SyntaxError)
             else
               (case parse (''('' @ src @ '')'') of
                  Inl e \<Rightarrow> (cache, Inl e)
                | Inr fullTree \<Rightarrow>
                    (case functionBody fullTree of
                       Inl e \<Rightarrow> (cache, Inl e)
                     | Inr tree \<Rightarrow> (cache(src \<mapsto> jsonClone tree), Inr tree)))))"

definition initState :: mstate where
  "initState = \<lparr>order = [], skipData = Map.empty, leftToSkip = None, vals = Map.empty,
     anon = [], vars = Map.empty, root = None, errlog = [], failure = None\<rparr>"

definition parseStructureWithVars ::
  "(string \<Rightarrow> error + jsval) \<Rightarrow> (string \<Rightarrow> jsval option) \<Rightarrow> template
   \<Rightarrow> (string \<Rightarrow> jsval option) \<times> (error + jsval \<times> mstate)" where
  "parseStructureWithVars parse cache struct =
     (case parseStructure parse cache struct of
        (cache', Inl e) \<Rightarrow> (cache', Inl e)
      | (cache', Inr tree) \<Rightarrow>
          (case foldConstants tree of
             (tree', Some e) \<Rightarrow> (cache', Inl e)
           | (tree', None) \<Rightarrow> (cache', Inr (simplifyTree tree' initState))))"

definition codeTreeOf :: "(string \<Rightarrow> error + jsval) \<Rightarrow> global \<Rightarrow> code \<Rightarrow> error + jsval" where
  "codeTreeOf parse g code =
     (if sameCode (cachedCode g) code then Inr (cachedCodeTree g)
      else if typeof (codeValue code) = ''object'' then deepClone (codeValue code)
      else parse (toKey (codeValue code)))"

definition match ::
  "(string \<Rightarrow> error + jsval) \<Rightarrow> global \<Rightarrow> code \<Rightarrow> template \<Rightarrow> options
   \<Rightarrow> global \<times> (error + bool \<times> mstate) option" where
  "match parse g code rawStructure opts =
     (case parseStructureWithVars parse (structureCache g) rawStructure of
        (cache', Inl e) \<Rightarrow> (g\<lparr>structureCache := cache'\<rparr>, Some (Inl e))
      | (cache', Inr (struct, st)) \<Rightarrow>
          (case codeTreeOf parse g code of
             Inl e \<Rightarrow> (g\<lparr>structureCache := cache'\<rparr>, Some (Inl e))
           | Inr unfolded \<Rightarrow>
               (case foldConstants unfolded of
                  (codeTree, Some e) \<Rightarrow>
                    (\<lparr>structureCache = cache', cachedCode = Some code, cachedCodeTree = codeTree\<rparr>,
                     Some (Inl e))
                | (codeTree, None) \<Rightarrow>
                    (\<lparr>structureCache = cache', cachedCode = Some code, cachedCodeTree = codeTree\<rparr>,
                     if nullish struct then Some (Inl TypeError)
                     else
                       (let body = getp struct ''body'';
                            toFind = (if isArray body then getp body ''0''
                                      else if truthy body then body else struct);
                            peers = (if isArray body then tl (elems body) else [])
                        in if order st = [] \<or> single opts then
                             (case checkMatchTree (single opts) codeTree toFind peers st of
                                Inl e \<Rightarrow> Some (Inl e)
                              | Inr (found, peers1, st1) \<Rightarrow> Some (Inr (found, st1)))
                           else anyPossible codeTree toFind peers (varCallbacks opts) 0 st)))))"

section \<open>The program tree in the store\<close>

text \<open>
  A tree that the caller passes is an object of the caller: \<^verbatim>\<open>match\<close> gets a reference to
  it. To say what happens to that object, the objects live in a store, a list of objects
  addressed by position, and a value is a primitive or a reference into the store.
\<close>

datatype hval = HUndef | HNull | HBool bool | HNum jsnum | HStr string | HRef nat

datatype hobj = HObj "(string \<times> hval) list" | HArr "hval list"

type_synonym heap = "hobj list"

text \<open>
  The values of the own properties of an object in the order of \<^verbatim>\<open>for (key in tree)\<close>, the
  properties with their names, and the assignment \<^verbatim>\<open>tree[key] = v\<close> to the \<open>i\<close>-th of them.
\<close>

fun hvalues :: "hobj \<Rightarrow> hval list" where
  "hvalues (HObj fs) = map snd fs"
| "hvalues (HArr xs) = xs"

fun hprops :: "hobj \<Rightarrow> (string \<times> hval) list" where
  "hprops (HObj fs) = fs"
| "hprops (HArr xs) = zip (map show_nat [0..<length xs]) xs"

fun slotSet :: "hobj \<Rightarrow> nat \<Rightarrow> hval \<Rightarrow> hobj" where
  "slotSet (HObj fs) i v = HObj (fs[i := (fst (fs ! i), v)])"
| "slotSet (HArr xs) i v = HArr (xs[i := v])"

text \<open>
  \<^verbatim>\<open>v[k]\<close>: a primitive has none of the properties read here, and a reference always
  points to an object of the store (one that does not is given no properties).
\<close>

definition hget :: "heap \<Rightarrow> hval \<Rightarrow> string \<Rightarrow> hval" where
  "hget h v k =
     (case v of
        HRef a \<Rightarrow>
          (if a < length h
           then (case map_of (hprops (h ! a)) k of Some x \<Rightarrow> x | None \<Rightarrow> HUndef)
           else HUndef)
      | _ \<Rightarrow> HUndef)"

fun keyIndex :: "(string \<times> hval) list \<Rightarrow> string \<Rightarrow> nat" where
  "keyIndex [] k = 0"
| "keyIndex ((k', v) # fs) k = (if k' = k then 0 else Suc (keyIndex fs k))"

fun hnullish :: "hval \<Rightarrow> bool" where
  "hnullish HUndef = True"
| "hnullish HNull = True"
| "hnullish v = False"

text \<open>
  The tree below a value of the store, as \<^verbatim>\<open>JSON.stringify\<close> walks it; \<open>None\<close> when the
  walk does not end within the fuel (a cyclic structure).
\<close>

fun readH :: "nat \<Rightarrow> heap \<Rightarrow> hval \<Rightarrow> jsval option"
  and readFields :: "nat \<Rightarrow> heap \<Rightarrow> (string \<times> hval) list \<Rightarrow> fields option"
  and readElems :: "nat \<Rightarrow> heap \<Rightarrow> hval list \<Rightarrow> jsval list option"
where
  "readH fuel h HUndef = Some JUndef"
| "readH fuel h HNull = Some JNull"
| "readH fuel h (HBool b) = Some (JBool b)"
| "readH fuel h (HNum n) = Some (JNum n)"
| "readH fuel h (HStr s) = Some (JStr s)"
| "readH 0 h (HRef a) = None"
| "readH (Suc fuel) h (HRef a) =
     (if a < length h then
        (case h ! a of
           HObj fs \<Rightarrow> map_option JObj (readFields fuel h fs)
         | HArr xs \<Rightarrow> map_option JArr (readElems fuel h xs))
      else None)"
| "readFields fuel h [] = Some []"
| "readFields fuel h ((k, v) # rest) =
     (case readH fuel h v of
        None \<Rightarrow> None
      | Some w \<Rightarrow> map_option ((#) (k, w)) (readFields fuel h rest))"
| "readElems fuel h [] = Some []"
| "readElems fuel h (v # rest) =
     (case readH fuel h v of
        None \<Rightarrow> None
      | Some w \<Rightarrow> map_option ((#) w) (readElems fuel h rest))"

text \<open>
  The test that \<^verbatim>\<open>foldConstants\<close> makes on a child \<^verbatim>\<open>ast\<close> after folding inside it: nothing
  to do, a \<^verbatim>\<open>TypeError\<close> on \<^verbatim>\<open>argument.type\<close> when the argument is \<^verbatim>\<open>null\<close> or \<^verbatim>\<open>undefined\<close>, or
  the argument object and the number to store in its \<^verbatim>\<open>value\<close>. The comparison of
  \<^verbatim>\<open>ast.type\<close> with \<^verbatim>\<open>==\<close> reads an array through the store.
\<close>

datatype fold_step = Keep | Throw | Replace nat jsnum

definition foldUnaryH :: "nat \<Rightarrow> heap \<Rightarrow> nat \<Rightarrow> fold_step" where
  "foldUnaryH fuel h b =
     (if (case readH fuel h (hget h (HRef b) ''type'') of Some t \<Rightarrow> isUnaryType t | None \<Rightarrow> False) then
        (let argument = hget h (HRef b) ''argument'' in
         if hnullish argument then Throw
         else
           (case (argument, hget h argument ''type'', hget h argument ''value'') of
              (HRef c, HStr t, HNum n) \<Rightarrow>
                if t = ''Literal'' then
                  (if hget h (HRef b) ''operator'' = HStr ''-'' then Replace c (negNum n)
                   else if hget h (HRef b) ''operator'' = HStr ''+'' then Replace c n
                   else Keep)
                else Keep
            | _ \<Rightarrow> Keep))
      else Keep)"

text \<open>
  \<^verbatim>\<open>foldConstants(tree)\<close> as the source runs it, writing into the objects of the tree:
  \<^verbatim>\<open>argument.value = -argument.value; tree[key] = argument\<close>. The fuel is the depth of
  recursion that the engine allows; running out of it is a \<^verbatim>\<open>RangeError\<close>. The loop over
  the keys takes the index of the next key and the number of keys left.
\<close>

fun foldConstantsH :: "nat \<Rightarrow> heap \<Rightarrow> nat \<Rightarrow> heap \<times> error option"
  and foldSlotsH :: "nat \<Rightarrow> heap \<Rightarrow> nat \<Rightarrow> nat \<Rightarrow> nat \<Rightarrow> heap \<times> error option"
where
  "foldConstantsH 0 h tree = (h, Some RangeError)"
| "foldConstantsH (Suc fuel) h tree =
     (if tree < length h then foldSlotsH fuel h tree 0 (length (hvalues (h ! tree)))
      else (h, Some TypeError))"
| "foldSlotsH fuel h tree i 0 = (h, None)"
| "foldSlotsH fuel h tree i (Suc n) =
     (case hvalues (h ! tree) ! i of
        HRef ast \<Rightarrow>
          (case foldConstantsH fuel h ast of
             (h1, Some e) \<Rightarrow> (h1, Some e)
           | (h1, None) \<Rightarrow>
               (case foldUnaryH fuel h1 ast of
                  Keep \<Rightarrow> foldSlotsH fuel h1 tree (Suc i) n
                | Throw \<Rightarrow> (h1, Some TypeError)
                | Replace argument value \<Rightarrow>
                    foldSlotsH fuel
                      (let h2 = h1[argument := slotSet (h1 ! argument)
                                     (keyIndex (hprops (h1 ! argument)) ''value'') (HNum value)]
                       in h2[tree := slotSet (h2 ! tree) i (HRef argument)])
                      tree (Suc i) n))
      | _ \<Rightarrow> foldSlotsH fuel h tree (Suc i) n)"


text \<open>
  \<^verbatim>\<open>JSON.parse\<close> and the parser build their result from new objects, added at the end of
  the store.
\<close>

fun allocJ :: "jsval \<Rightarrow> heap \<Rightarrow> heap \<times> hval"
  and allocFields :: "fields \<Rightarrow> heap \<Rightarrow> heap \<times> (string \<times> hval) list"
  and allocElems :: "jsval list \<Rightarrow> heap \<Rightarrow> heap \<times> hval list"
where
  "allocJ JUndef h = (h, HUndef)"
| "allocJ JNull h = (h, HNull)"
| "allocJ (JBool b) h = (h, HBool b)"
| "allocJ (JNum n) h = (h, HNum n)"
| "allocJ (JStr s) h = (h, HStr s)"
| "allocJ (JRef v) h = (h @ [HObj []], HRef (length h))"
| "allocJ (JObj fs) h =
     (case allocFields fs h of (h1, fs') \<Rightarrow> (h1 @ [HObj fs'], HRef (length h1)))"
| "allocJ (JArr xs) h =
     (case allocElems xs h of (h1, xs') \<Rightarrow> (h1 @ [HArr xs'], HRef (length h1)))"
| "allocFields [] h = (h, [])"
| "allocFields ((k, v) # rest) h =
     (case allocJ v h of (h1, w) \<Rightarrow>
        (case allocFields rest h1 of (h2, rest') \<Rightarrow> (h2, (k, w) # rest')))"
| "allocElems [] h = (h, [])"
| "allocElems (v # rest) h =
     (case allocJ v h of (h1, w) \<Rightarrow>
        (case allocElems rest h1 of (h2, rest') \<Rightarrow> (h2, w # rest')))"

text \<open>\<^verbatim>\<open>deepClone(obj)\<close>: \<^verbatim>\<open>JSON.parse(JSON.stringify(obj))\<close>.\<close>

definition deepCloneH :: "nat \<Rightarrow> heap \<Rightarrow> hval \<Rightarrow> error + heap \<times> hval" where
  "deepCloneH fuel h obj =
     (case readH fuel h obj of
        None \<Rightarrow> Inl TypeError
      | Some t \<Rightarrow>
          (case deepClone t of
             Inl e \<Rightarrow> Inl e
           | Inr json \<Rightarrow> Inr (allocJ json h)))"

text \<open>
  The \<^verbatim>\<open>code\<close> argument is a text or a reference to the caller's tree; \<^verbatim>\<open>cachedCode === code\<close>
  compares texts by content and objects by reference. The module keeps the last code and
  a reference to its tree.
\<close>

datatype hcode = HText string | HTree nat

record hglobal =
  hstructureCache :: "string \<Rightarrow> jsval option"
  hcachedCode :: "hcode option"
  hcachedCodeTree :: hval

text \<open>
  The choice of \<^verbatim>\<open>codeTree\<close> in \<^verbatim>\<open>match\<close>: the cached tree, a clone of the caller's tree, or
  the parser's result.
\<close>

definition codeTreeH ::
  "(string \<Rightarrow> error + jsval) \<Rightarrow> nat \<Rightarrow> heap \<Rightarrow> hglobal \<Rightarrow> hcode \<Rightarrow> error + heap \<times> hval" where
  "codeTreeH parse fuel h g code =
     (if hcachedCode g = Some code then Inr (h, hcachedCodeTree g)
      else
        (case code of
           HTree a \<Rightarrow> deepCloneH fuel h (HRef a)
         | HText text \<Rightarrow>
             (case parse text of Inl e \<Rightarrow> Inl e | Inr t \<Rightarrow> Inr (allocJ t h))))"

definition foldTreeH :: "nat \<Rightarrow> heap \<Rightarrow> hval \<Rightarrow> heap \<times> error option" where
  "foldTreeH fuel h codeTree =
     (case codeTree of HRef r \<Rightarrow> foldConstantsH fuel h r | _ \<Rightarrow> (h, None))"

text \<open>
  The search itself. \<^verbatim>\<open>checkMatchTree\<close>, \<^verbatim>\<open>checkNodeArray\<close>, \<^verbatim>\<open>exactMatchNode\<close> and
  \<^verbatim>\<open>anyPossible\<close> assign only to \<^verbatim>\<open>matchResults\<close>, to \<^verbatim>\<open>wVars\<close> and to the template; they read
  the program tree and never assign to a property of one of its nodes. So the search runs
  on the tree read from the store and leaves the store as it is.
\<close>

definition findH ::
  "jsval \<Rightarrow> jsval \<Rightarrow> mstate \<Rightarrow> options \<Rightarrow> (error + bool \<times> mstate) option" where
  "findH codeTree struct st opts =
     (if nullish struct then Some (Inl TypeError)
      else
        (let body = getp struct ''body'';
             toFind = (if isArray body then getp body ''0''
                       else if truthy body then body else struct);
             peers = (if isArray body then tl (elems body) else [])
         in if order st = [] \<or> single opts then
              (case checkMatchTree (single opts) codeTree toFind peers st of
                 Inl e \<Rightarrow> Some (Inl e)
               | Inr (found, peers1, st1) \<Rightarrow> Some (Inr (found, st1)))
            else anyPossible codeTree toFind peers (varCallbacks opts) 0 st))"

text \<open>\<^verbatim>\<open>match\<close> with the program tree in the store.\<close>

definition matchH ::
  "(string \<Rightarrow> error + jsval) \<Rightarrow> nat \<Rightarrow> heap \<Rightarrow> hglobal \<Rightarrow> hcode \<Rightarrow> template \<Rightarrow> options
   \<Rightarrow> heap \<times> hglobal \<times> (error + bool \<times> mstate) option" where
  "matchH parse fuel h g code rawStructure opts =
     (case parseStructureWithVars parse (hstructureCache g) rawStructure of
        (cache', Inl e) \<Rightarrow> (h, g\<lparr>hstructureCache := cache'\<rparr>, Some (Inl e))
      | (cache', Inr (struct, st)) \<Rightarrow>
          (case codeTreeH parse fuel h g code of
             Inl e \<Rightarrow> (h, g\<lparr>hstructureCache := cache'\<rparr>, Some (Inl e))
           | Inr (h1, codeTree) \<Rightarrow>
               (let g' = \<lparr>hstructureCache = cache', hcachedCode = Some code,
                          hcachedCodeTree = codeTree\<rparr>
                in case foldTreeH fuel h1 codeTree of
                     (h2, Some e) \<Rightarrow> (h2, g', Some (Inl e))
                   | (h2, None) \<Rightarrow>
                       (case readH fuel h2 codeTree of
                          None \<Rightarrow> (h2, g', Some (Inl RangeError))
                        | Some tree \<Rightarrow> (h2, g', findH tree struct st opts)))))"

text \<open>A sequence of calls of \<^verbatim>\<open>match\<close>, and the module's state at load time.\<close>

fun matchAll ::
  "(string \<Rightarrow> error + jsval) \<Rightarrow> nat \<Rightarrow> (hcode \<times> template \<times> options) list
   \<Rightarrow> heap \<Rightarrow> hglobal \<Rightarrow> heap \<times> hglobal" where
  "matchAll parse fuel [] h g = (h, g)"
| "matchAll parse fuel ((code, rawStructure, opts) # calls) h g =
     (case matchH parse fuel h g code rawStructure opts of
        (h', g', result) \<Rightarrow> matchAll parse fuel calls h' g')"

definition freshH :: hglobal where
  "freshH = \<lparr>hstructureCache = Map.empty, hcachedCode = None, hcachedCodeTree = HUndef\<rparr>"

text \<open>
  The addresses that an object refers to; a set of addresses that is closed under
  reference; and the region of the cached tree: a closed set that holds its root.
\<close>

definition refs :: "hobj \<Rightarrow> nat set" where
  "refs ob = {a. HRef a \<in> set (hvalues ob)}"

definition closedIn :: "heap \<Rightarrow> nat set \<Rightarrow> bool" where
  "closedIn h F \<longleftrightarrow> (\<forall>x\<in>F. x < length h \<and> refs (h ! x) \<subseteq> F)"

definition cloneRegion :: "heap \<Rightarrow> hglobal \<Rightarrow> nat set \<Rightarrow> bool" where
  "cloneRegion h g F \<longleftrightarrow>
     closedIn h F \<and> (\<forall>r. hcachedCodeTree g = HRef r \<longrightarrow> r \<in> F)"

text \<open>
  \<open>newRegion h h'\<close>: the store \<open>h'\<close> is \<open>h\<close> followed by new objects that refer to new
  objects only. \<open>sameOutside h h' F\<close>: the stores differ in the objects of \<open>F\<close> at most,
  and every object has kept its number of properties.
\<close>

definition newRegion :: "heap \<Rightarrow> heap \<Rightarrow> bool" where
  "newRegion h h' \<longleftrightarrow>
     take (length h) h' = h \<and> length h \<le> length h' \<and>
     (\<forall>x. length h \<le> x \<and> x < length h' \<longrightarrow> refs (h' ! x) \<subseteq> {length h..<length h'})"

definition sameOutside :: "heap \<Rightarrow> heap \<Rightarrow> nat set \<Rightarrow> bool" where
  "sameOutside h h' F \<longleftrightarrow>
     length h' = length h \<and>
     (\<forall>x. x < length h \<and> x \<notin> F \<longrightarrow> h' ! x = h ! x) \<and>
     (\<forall>x\<in>F. length (hvalues (h' ! x)) = length (hvalues (h ! x)))"

section \<open>Example trees\<close>

text \<open>
  Syntax trees in the format of the parser (the Mozilla parser API), a parser that
  rejects every text (for calls that pass trees), the module's state at load time and
  the default options.
\<close>

definition Identifier :: "string \<Rightarrow> jsval" where
  "Identifier name = JObj [(''type'', JStr ''Identifier''), (''name'', JStr name)]"

definition NumberLiteral :: "int \<Rightarrow> jsval" where
  "NumberLiteral n = JObj [(''type'', JStr ''Literal''), (''value'', JNum (numOfInt n))]"

definition UnaryExpression :: "string \<Rightarrow> jsval \<Rightarrow> jsval" where
  "UnaryExpression operator argument =
     JObj [(''type'', JStr ''UnaryExpression''), (''operator'', JStr operator),
           (''argument'', argument), (''prefix'', JBool True)]"

definition BinaryExpression :: "string \<Rightarrow> jsval \<Rightarrow> jsval \<Rightarrow> jsval" where
  "BinaryExpression operator left right =
     JObj [(''type'', JStr ''BinaryExpression''), (''operator'', JStr operator),
           (''left'', left), (''right'', right)]"

definition ExpressionStatement :: "jsval \<Rightarrow> jsval" where
  "ExpressionStatement expression =
     JObj [(''type'', JStr ''ExpressionStatement''), (''expression'', expression)]"

definition CallExpression :: "jsval \<Rightarrow> jsval list \<Rightarrow> jsval" where
  "CallExpression callee arguments =
     JObj [(''type'', JStr ''CallExpression''), (''callee'', callee), (''arguments'', JArr arguments)]"

text \<open>The statement \<^verbatim>\<open>name;\<close>.\<close>

definition stmt :: "string \<Rightarrow> jsval" where
  "stmt name = ExpressionStatement (Identifier name)"

definition EmptyStatement :: jsval where
  "EmptyStatement = JObj [(''type'', JStr ''EmptyStatement'')]"

definition ArrayExpression :: "jsval list \<Rightarrow> jsval" where
  "ArrayExpression elements = JObj [(''type'', JStr ''ArrayExpression''), (''elements'', JArr elements)]"

definition BlockStatement :: "jsval list \<Rightarrow> jsval" where
  "BlockStatement body = JObj [(''type'', JStr ''BlockStatement''), (''body'', JArr body)]"

definition Program :: "jsval list \<Rightarrow> jsval" where
  "Program body = JObj [(''type'', JStr ''Program''), (''body'', JArr body)]"

definition FunctionExpression :: "jsval \<Rightarrow> jsval" where
  "FunctionExpression body =
     JObj [(''type'', JStr ''FunctionExpression''), (''id'', JNull), (''params'', JArr []),
           (''body'', body)]"

definition noParser :: "string \<Rightarrow> error + jsval" where
  "noParser text = Inl ParseError"

text \<open>The statement \<^verbatim>\<open>f(a, q);\<close>, a call of \<open>f\<close> with names as arguments.\<close>

definition callStmt :: "string \<Rightarrow> string list \<Rightarrow> jsval" where
  "callStmt f args = ExpressionStatement (CallExpression (Identifier f) (map Identifier args))"

text \<open>
  The literal \<^verbatim>\<open>1e999\<close>, whose value is \<^verbatim>\<open>Infinity\<close>, and a parser that knows the
  template text \<^verbatim>\<open>function() { 1e999; }\<close> and the program text \<^verbatim>\<open>1e999;\<close>.
\<close>

definition hugeLiteral :: jsval where
  "hugeLiteral = JObj [(''type'', JStr ''Literal''), (''value'', JNum ''Infinity''), (''raw'', JStr ''1e999'')]"

definition hugeParser :: "string \<Rightarrow> error + jsval" where
  "hugeParser src =
     (if src = ''(function() { 1e999; })''
      then Inr (Program [ExpressionStatement (FunctionExpression (BlockStatement [ExpressionStatement hugeLiteral]))])
      else if src = ''1e999;'' then Inr (Program [ExpressionStatement hugeLiteral])
      else Inl ParseError)"

definition freshGlobal :: global where
  "freshGlobal = \<lparr>structureCache = Map.empty, cachedCode = None, cachedCodeTree = JUndef\<rparr>"

definition defaultOptions :: options where
  "defaultOptions = \<lparr>single = False, varCallbacks = []\<rparr>"

text \<open>
  The outcome of a call of \<^verbatim>\<open>match\<close> on trees, in the module's state at load time:
  what it returned (\<open>Some (Inr found)\<close>) or threw, whether it returned a match, and
  what it logged.
\<close>

definition outcome :: "jsval \<Rightarrow> jsval \<Rightarrow> options \<Rightarrow> (error + bool) option" where
  "outcome codeObj structObj opts =
     map_option (map_sum id fst)
       (snd (match noParser freshGlobal (CodeObj 0 codeObj) (StructObj structObj) opts))"

definition matches :: "jsval \<Rightarrow> jsval \<Rightarrow> options \<Rightarrow> bool option" where
  "matches codeObj structObj opts =
     (case snd (match noParser freshGlobal (CodeObj 0 codeObj) (StructObj structObj) opts) of
        Some (Inr (found, st)) \<Rightarrow> Some found
      | _ \<Rightarrow> None)"

definition logged :: "jsval \<Rightarrow> jsval \<Rightarrow> options \<Rightarrow> string list" where
  "logged codeObj structObj opts =
     (case snd (match noParser freshGlobal (CodeObj 0 codeObj) (StructObj structObj) opts) of
        Some (Inr (found, st)) \<Rightarrow> errlog st
      | _ \<Rightarrow> [])"

text \<open>What \<^verbatim>\<open>matchResults._\<close> holds after such a call.\<close>

definition anonymous :: "jsval \<Rightarrow> jsval \<Rightarrow> options \<Rightarrow> jsval list" where
  "anonymous codeObj structObj opts =
     (case snd (match noParser freshGlobal (CodeObj 0 codeObj) (StructObj structObj) opts) of
        Some (Inr (found, st)) \<Rightarrow> anon st
      | _ \<Rightarrow> [])"

text \<open>
  Two calls of \<^verbatim>\<open>match\<close> with the same arguments, the first in the module's state at
  load time, the second in the state the first has left: what each returned or threw.
\<close>

definition twice ::
  "(string \<Rightarrow> error + jsval) \<Rightarrow> code \<Rightarrow> template \<Rightarrow> (error + bool) option \<times> (error + bool) option" where
  "twice parse code rawStructure =
     (case match parse freshGlobal code rawStructure defaultOptions of
        (g1, r1) \<Rightarrow>
          (map_option (map_sum id fst) r1,
           map_option (map_sum id fst) (snd (match parse g1 code rawStructure defaultOptions))))"

text \<open>The state inside a search for the variable \<^verbatim>\<open>$x\<close>, with \<open>k\<close> candidates to skip.\<close>

definition searching :: "nat \<Rightarrow> mstate" where
  "searching k = initState\<lparr>order := [''$x''], skipData := [''$x'' \<mapsto> k],
     leftToSkip := Some [''$x'' \<mapsto> k], vals := [''$x'' \<mapsto> []]\<rparr>"


definition rejectAll :: callback where
  "rejectAll args = Reject"

text \<open>
  A caller's tree for \<^verbatim>\<open>-5;\<close> in an otherwise empty store, its address, and the template
  of a block with the statement \<^verbatim>\<open>-5;\<close>.
\<close>

definition callerProgram :: jsval where
  "callerProgram = Program [ExpressionStatement (UnaryExpression ''-'' (NumberLiteral 5))]"

definition callerHeap :: heap where
  "callerHeap = fst (allocJ callerProgram [])"

definition callerRoot :: nat where
  "callerRoot = (case snd (allocJ callerProgram []) of HRef a \<Rightarrow> a | _ \<Rightarrow> 0)"

definition minusFive :: template where
  "minusFive = StructObj (BlockStatement [ExpressionStatement (NumberLiteral (- 5))])"

section \<open>Notions of the statements\<close>

text \<open>
  A node is \<open>foldable\<close> when it is a unary \<^verbatim>\<open>-\<close> or \<^verbatim>\<open>+\<close> applied directly to a
  numeric literal; \<open>folded\<close> is the single literal node for it: its argument, holding the
  negated or the unchanged value.
\<close>

definition foldable :: "jsval \<Rightarrow> bool" where
  "foldable ast \<longleftrightarrow>
     isUnaryType (getp ast ''type'') \<and>
     (getp ast ''operator'' = JStr ''-'' \<or> getp ast ''operator'' = JStr ''+'') \<and>
     getp (getp ast ''argument'') ''type'' = JStr ''Literal'' \<and>
     isNumber (getp (getp ast ''argument'') ''value'')"

definition folded :: "jsval \<Rightarrow> jsval" where
  "folded ast =
     (case (getp ast ''argument'', getp (getp ast ''argument'') ''value'') of
        (JObj afs, JNum n) \<Rightarrow>
          JObj (setf afs ''value'' (JNum (if getp ast ''operator'' = JStr ''-'' then negNum n else n)))
      | _ \<Rightarrow> ast)"

text \<open>
  \<open>rewrite t t'\<close>: the tree \<open>t'\<close> is \<open>t\<close> with one foldable node below the root replaced
  by its literal, and nothing else changed.
\<close>

inductive rewrite :: "jsval \<Rightarrow> jsval \<Rightarrow> bool" where
  field: "foldable v \<Longrightarrow> rewrite (JObj (fs @ (k, v) # fs')) (JObj (fs @ (k, folded v) # fs'))"
| elem: "foldable v \<Longrightarrow> rewrite (JArr (xs @ v # xs')) (JArr (xs @ folded v # xs'))"
| in_field: "rewrite v v' \<Longrightarrow> rewrite (JObj (fs @ (k, v) # fs')) (JObj (fs @ (k, v') # fs'))"
| in_elem: "rewrite v v' \<Longrightarrow> rewrite (JArr (xs @ v # xs')) (JArr (xs @ v' # xs'))"

text \<open>The values below the root of a tree.\<close>

fun descendants :: "jsval \<Rightarrow> jsval list"
  and descFields :: "fields \<Rightarrow> jsval list"
  and descElems :: "jsval list \<Rightarrow> jsval list"
where
  "descendants (JObj fs) = descFields fs"
| "descendants (JArr xs) = descElems xs"
| "descendants JUndef = []"
| "descendants JNull = []"
| "descendants (JBool b) = []"
| "descendants (JNum n) = []"
| "descendants (JStr s) = []"
| "descendants (JRef v) = []"
| "descFields [] = []"
| "descFields ((k, v) # rest) = v # descendants v @ descFields rest"
| "descElems [] = []"
| "descElems (v # rest) = v # descendants v @ descElems rest"

text \<open>
  What the loop body of \<^verbatim>\<open>foldConstants\<close> does to one child: it rewrites below the
  child, and then replaces the child if it is foldable.
\<close>

definition childStep :: "jsval \<Rightarrow> jsval \<Rightarrow> bool" where
  "childStep a r \<longleftrightarrow> (\<exists>a'. rewrite\<^sup>*\<^sup>* a a' \<and> (r = a' \<or> (foldable a' \<and> r = folded a')))"

text \<open>
  The answers of the callbacks, each called with the values of the variables its property
  names; the callbacks that \<^verbatim>\<open>checkUserVarCallbacks\<close> calls: those up to the first that
  does not accept, and that one; the failure message of that one; and the lines to log
  for a property, one for each name it lists that has no binding cell.
\<close>

definition answers :: "mstate \<Rightarrow> (string \<times> callback) list \<Rightarrow> cbresult list" where
  "answers st cbs =
     map (\<lambda>(property, cb). cb (map (varValue st) (varNamesOf property))) cbs"

definition consulted :: "mstate \<Rightarrow> (string \<times> callback) list \<Rightarrow> (string \<times> callback) list" where
  "consulted st cbs =
     take (Suc (length (takeWhile (\<lambda>r. r = Accept) (answers st cbs)))) cbs"



section \<open>Exact node comparison\<close>

lemma isArray_not_nullish: "isArray v \<Longrightarrow> \<not> nullish v"
  by (cases v) simp_all

lemma mismatch_empty_array: "\<not> nullish v \<Longrightarrow> mismatch v (JArr []) \<longleftrightarrow> \<not> isArray v"
  by (cases v) (simp_all add: mismatch_def)

lemma keyStep_empty_array:
  assumes "getp (deref st toFind) key = JArr []" and "\<not> nullish currNode" and "key \<noteq> ''wildcardVar''"
  shows "keyStep currNode toFind key rootToSet peers st =
     (if isArray (getp currNode key) then Next st
      else if nullish (getp currNode key) then Return (Inr (False, peers, st))
      else Return (Inr (False, peers, st\<lparr>errlog := errlog st @ [''Object/array/other type mismatch.'']\<rparr>)))"
  using assms
  by (auto simp add: keyStep_def Let_def elems_def mismatch_empty_array dest: isArray_not_nullish)

lemma empty_array_keys:
  assumes "getp (deref st toFind) key = JArr []" and "\<not> nullish currNode" and "key \<noteq> ''wildcardVar''"
  shows "exactMatchKeys sgl currNode toFind (key # keys) rootToSet peers st =
     (if isArray (getp currNode key) then exactMatchKeys sgl currNode toFind keys rootToSet peers st
      else if nullish (getp currNode key) then Inr (False, peers, st)
      else Inr (False, peers, st\<lparr>errlog := errlog st @ [''Object/array/other type mismatch.'']\<rparr>))"
  by (simp only: exactMatchKeys.simps keyStep_empty_array[OF assms] step.case if_distrib[of "case_step _ _ _ _"] split: if_splits)

text \<open>
  C10: a template field holding the empty array asks only for an array in the field of
  the same name of the candidate: whatever the array holds, the comparison goes on with
  the next key, in the same state. (The key is not the marker \<^verbatim>\<open>wildcardVar\<close>, which
  \<^verbatim>\<open>simplifyTree\<close> gives a string; the candidate is a node, not \<^verbatim>\<open>null\<close>.)
\<close>

theorem empty_template_array_matches_any_array:
  assumes "getp (deref st toFind) key = JArr []" and "\<not> nullish currNode" and "key \<noteq> ''wildcardVar''"
  shows "exactMatchKeys sgl currNode toFind (key # keys) rootToSet peers st =
     (if isArray (getp currNode key) then exactMatchKeys sgl currNode toFind keys rootToSet peers st
      else if nullish (getp currNode key) then Inr (False, peers, st)
      else Inr (False, peers, st\<lparr>errlog := errlog st @ [''Object/array/other type mismatch.'']\<rparr>))"
  using assms by (rule empty_array_keys)

theorem empty_template_array_matches_any_array_witness:
  "getp (deref initState (CallExpression (Identifier ''f'') [])) ''arguments'' = JArr [] \<and>
   \<not> nullish (CallExpression (Identifier ''f'') [NumberLiteral 1, NumberLiteral 2]) \<and>
   ''arguments'' \<noteq> ''wildcardVar'' \<and>
   exactMatchKeys False (CallExpression (Identifier ''f'') [NumberLiteral 1, NumberLiteral 2])
     (CallExpression (Identifier ''f'') []) [''arguments''] None [] initState =
   Inr (True, [], initState)"
proof -
  have h1: "getp (deref initState (CallExpression (Identifier ''f'') [])) ''arguments'' = JArr []"
    by (simp add: deref_def CallExpression_def getp_def)
  have h2: "\<not> nullish (CallExpression (Identifier ''f'') [NumberLiteral 1, NumberLiteral 2])"
    by (simp add: CallExpression_def)
  have h3: "''arguments'' \<noteq> ''wildcardVar''" by simp
  have h4: "isArray (getp (CallExpression (Identifier ''f'') [NumberLiteral 1, NumberLiteral 2]) ''arguments'')"
    by (simp add: CallExpression_def getp_def)
  show ?thesis
    using empty_template_array_matches_any_array[OF h1 h2 h3, of False "[]" None "[]"] h1 h2 h4
    by (simp add: setRoot_def CallExpression_def)
qed

lemma keyStep_bind:
  assumes "getp (deref st toFind) ''wildcardVar'' = JStr v" and "\<not> nullish currNode"
    and "nullish (getp currNode ''wildcardVar'')"
  shows "keyStep currNode toFind ''wildcardVar'' rootToSet peers st =
     Return (bindVar currNode (JStr v) rootToSet peers st)"
  using assms by (simp add: keyStep_def Let_def)

lemma bindVar_name:
  "bindVar currNode (JStr v) rootToSet peers st =
     (case leftToSkip st of
        None \<Rightarrow> Inl TypeError
      | Some lts \<Rightarrow>
          (case lts v of
             Some (Suc n) \<Rightarrow> Inr (False, peers, st\<lparr>leftToSkip := Some (lts(v \<mapsto> n))\<rparr>)
           | _ \<Rightarrow>
               Inr (True, peers,
                 setRoot rootToSet
                   (st\<lparr>vals :=
                         (case vals st v of
                            None \<Rightarrow> vals st
                          | Some cell \<Rightarrow> (vals st)(v \<mapsto> extendObj cell (copied currNode))),
                       vars := (vars st)(drop 1 v \<mapsto> currNode)\<rparr>))))"
  by (simp add: bindVar_def sliceKey_def split: option.splits nat.splits)

lemma keys_of_marker: "keys_of (deref st (JObj [(''wildcardVar'', JStr v)])) = [''wildcardVar'']"
  by (simp add: keys_of_def deref_def)

lemma getp_marker: "getp (deref st (JObj [(''wildcardVar'', JStr v)])) ''wildcardVar'' = JStr v"
  by (simp add: getp_def deref_def)

lemma ex_single_throws:
  "outcome (stmt ''a'') (BlockStatement [stmt ''$x'']) (defaultOptions\<lparr>single := True\<rparr>) = Some (Inl TypeError)"
  by code_simp

lemma ex_search_binds:
  "outcome (stmt ''a'') (BlockStatement [stmt ''$x'']) defaultOptions = Some (Inr True)"
  by code_simp

lemma ex_single_plain:
  "outcome (stmt ''a'') (BlockStatement [stmt ''a'']) (defaultOptions\<lparr>single := True\<rparr>) = Some (Inr True)"
  by code_simp

text \<open>
  C3 on the code: when the comparison reaches the key \<^verbatim>\<open>wildcardVar\<close> of the template
  (holding the variable's name \<open>v\<close>) and the candidate node has no such field, the
  candidate is skipped or bound only where \<^verbatim>\<open>wVars.leftToSkip\<close> exists, which is
  inside \<^verbatim>\<open>anyPossible\<close>. There, a counter above zero goes down by one and the
  candidate is rejected; otherwise the candidate's properties are copied to the binding
  cell, the candidate is stored in \<^verbatim>\<open>matchResults.vars\<close> under the name without its
  first character, and \<^verbatim>\<open>matchResults.root\<close> is set to \<^verbatim>\<open>rootToSet\<close>. With
  \<^verbatim>\<open>options.single\<close> (\<^verbatim>\<open>matchNode\<close>), \<^verbatim>\<open>match\<close> calls \<^verbatim>\<open>checkMatchTree\<close>
  directly, \<^verbatim>\<open>wVars.leftToSkip\<close> is undefined, and reading the counter throws a
  \<^verbatim>\<open>TypeError\<close>: the node \<^verbatim>\<open>a;\<close> against the template \<^verbatim>\<open>$x;\<close> throws with
  \<^verbatim>\<open>options.single\<close>, where the search binds \<^verbatim>\<open>$x\<close> and the template \<^verbatim>\<open>a;\<close>
  matches.
\<close>

theorem candidate_binding_throws_without_skip_counters:
  assumes "getp (deref st toFind) ''wildcardVar'' = JStr v"
    and "\<not> nullish currNode" and "nullish (getp currNode ''wildcardVar'')"
  shows "exactMatchKeys sgl currNode toFind (''wildcardVar'' # keys) rootToSet peers st =
     (case leftToSkip st of
        None \<Rightarrow> Inl TypeError
      | Some lts \<Rightarrow>
          (case lts v of
             Some (Suc n) \<Rightarrow> Inr (False, peers, st\<lparr>leftToSkip := Some (lts(v \<mapsto> n))\<rparr>)
           | _ \<Rightarrow>
               Inr (True, peers,
                 setRoot rootToSet
                   (st\<lparr>vals :=
                         (case vals st v of
                            None \<Rightarrow> vals st
                          | Some cell \<Rightarrow> (vals st)(v \<mapsto> extendObj cell (copied currNode))),
                       vars := (vars st)(drop 1 v \<mapsto> currNode)\<rparr>)))) \<and>
   outcome (stmt ''a'') (BlockStatement [stmt ''$x'']) (defaultOptions\<lparr>single := True\<rparr>)
     = Some (Inl TypeError) \<and>
   outcome (stmt ''a'') (BlockStatement [stmt ''$x'']) defaultOptions = Some (Inr True) \<and>
   outcome (stmt ''a'') (BlockStatement [stmt ''a'']) (defaultOptions\<lparr>single := True\<rparr>)
     = Some (Inr True)"
proof -
  have "exactMatchKeys sgl currNode toFind (''wildcardVar'' # keys) rootToSet peers st =
          bindVar currNode (JStr v) rootToSet peers st"
    by (simp only: exactMatchKeys.simps keyStep_bind[OF assms] step.case)
  thus ?thesis
    using ex_single_throws ex_search_binds ex_single_plain by (simp only: bindVar_name)
qed

theorem candidate_binding_throws_without_skip_counters_witness:
  "exactMatchKeys False (Identifier ''a'') (JObj [(''wildcardVar'', JStr ''$x'')]) [''wildcardVar''] None []
     initState = Inl TypeError \<and>
   exactMatchKeys False (Identifier ''a'') (JObj [(''wildcardVar'', JStr ''$x'')]) [''wildcardVar''] None []
     (searching 1) = Inr (False, [], (searching 1)\<lparr>leftToSkip := Some [''$x'' \<mapsto> 0]\<rparr>) \<and>
   exactMatchKeys False (Identifier ''a'') (JObj [(''wildcardVar'', JStr ''$x'')]) [''wildcardVar''] None []
     (searching 0) =
     Inr (True, [], (searching 0)\<lparr>
       vals := [''$x'' \<mapsto> [(''type'', JStr ''Identifier''), (''name'', JStr ''a'')]],
       vars := [''x'' \<mapsto> Identifier ''a'']\<rparr>)"
proof -
  have h1: "getp (deref s (JObj [(''wildcardVar'', JStr ''$x'')])) ''wildcardVar'' = JStr ''$x''" for s
    by (rule getp_marker)
  have h2: "\<not> nullish (Identifier ''a'')" by (simp add: Identifier_def)
  have h3: "nullish (getp (Identifier ''a'') ''wildcardVar'')" by (simp add: Identifier_def getp_def)
  note t = candidate_binding_throws_without_skip_counters[OF h1 h2 h3, where sgl = False and peers = "[]"
      and keys = "[]" and rootToSet = None, THEN conjunct1]
  have a: "leftToSkip initState = None" by (simp add: initState_def)
  have b: "leftToSkip (searching k) = Some [''$x'' \<mapsto> k]" "vals (searching k) ''$x'' = Some []" for k
    by (simp_all add: searching_def)
  have e: "extendObj [] (copied (Identifier ''a'')) = [(''type'', JStr ''Identifier''), (''name'', JStr ''a'')]"
    by (simp add: extendObj_def copied_def Identifier_def)
  have c1: "exactMatchKeys False (Identifier ''a'') (JObj [(''wildcardVar'', JStr ''$x'')]) [''wildcardVar''] None []
     initState = Inl TypeError"
    using t[of initState] a by simp
  have c2: "exactMatchKeys False (Identifier ''a'') (JObj [(''wildcardVar'', JStr ''$x'')]) [''wildcardVar''] None []
     (searching 1) = Inr (False, [], (searching 1)\<lparr>leftToSkip := Some [''$x'' \<mapsto> 0]\<rparr>)"
    using t[of "searching 1"] b[of 1] by simp
  have c3: "exactMatchKeys False (Identifier ''a'') (JObj [(''wildcardVar'', JStr ''$x'')]) [''wildcardVar''] None []
     (searching 0) =
     Inr (True, [], (searching 0)\<lparr>
       vals := [''$x'' \<mapsto> [(''type'', JStr ''Identifier''), (''name'', JStr ''a'')]],
       vars := [''x'' \<mapsto> Identifier ''a'']\<rparr>)"
    using t[of "searching 0"] b[of 0] e by (simp add: setRoot_def searching_def initState_def)
  from c1 c2 c3 show ?thesis by simp
qed

section \<open>Sequences: globs and peers\<close>

lemma ex_peers_1: "matches (Program [stmt ''a'', stmt ''c'', stmt ''b'']) (BlockStatement [stmt ''a'', stmt ''b'']) defaultOptions = Some True"
  by code_simp

lemma ex_peers_2: "matches (Program [stmt ''a'', stmt ''b'']) (BlockStatement [stmt ''b'', stmt ''a'']) defaultOptions = Some False"
  by code_simp

lemma ex_peers_missing: "matches (Program [stmt ''a'']) (BlockStatement [stmt ''a'', stmt ''b'']) defaultOptions = Some False"
  by code_simp

lemma ex_peers_nested_1:
  "matches (Program [callStmt ''f'' [''a'', ''q''], stmt ''a'']) (BlockStatement [stmt ''a'', stmt ''b''])
     defaultOptions = Some True"
  by code_simp

lemma ex_peers_nested_2:
  "matches (Program [callStmt ''f'' [''b''], stmt ''b'']) (BlockStatement [stmt ''b'', callStmt ''f'' [''b'']])
     defaultOptions = Some True"
  by code_simp

lemma ex_peers_nested_3:
  "matches (Program [callStmt ''f'' [''q''], stmt ''a'']) (BlockStatement [stmt ''a'', stmt ''b''])
     defaultOptions = Some False"
  by code_simp

lemma ex_glob_1:
  "matches (Program [stmt ''x'', stmt ''y'', stmt ''c'']) (BlockStatement [stmt ''glob_'', stmt ''c''])
     defaultOptions = Some True"
  by code_simp

lemma ex_glob_1_capture:
  "anonymous (Program [stmt ''x'', stmt ''y'', stmt ''c'']) (BlockStatement [stmt ''glob_'', stmt ''c''])
     defaultOptions = [JArr [stmt ''x'', stmt ''y'', stmt ''c'']]"
  by code_simp

lemma ex_glob_2: "matches (Program [stmt ''x'', stmt ''y'']) (BlockStatement [stmt ''glob_'', stmt ''c'']) defaultOptions = Some True"
  by code_simp

lemma ex_glob_top:
  "matches (Program [stmt ''a'', stmt ''x'', stmt ''d'']) (BlockStatement [stmt ''a'', stmt ''glob_'', stmt ''c''])
     defaultOptions = Some True"
  by code_simp

lemma ex_glob_nested_1:
  "matches (Program [callStmt ''f'' [''a'', ''q''], stmt ''c'']) (BlockStatement [stmt ''a'', stmt ''glob_'', stmt ''c''])
     defaultOptions = Some True"
  by code_simp

lemma ex_glob_nested_2:
  "matches (Program [callStmt ''f'' [''a'', ''q''], stmt ''d'']) (BlockStatement [stmt ''a'', stmt ''glob_'', stmt ''c''])
     defaultOptions = Some False"
  by code_simp

lemma ex_glob_nested_3:
  "anonymous (Program [callStmt ''f'' [''a'', ''q''], stmt ''c''])
     (BlockStatement [stmt ''a'', stmt ''glob_'', stmt ''c'']) defaultOptions = [JArr [Identifier ''q'']]"
  by code_simp

lemma ex_glob_empty:
  "anonymous (Program []) (BlockStatement [stmt ''glob_'']) defaultOptions = [JArr []]"
  by code_simp

text \<open>
  C4 on the code: a glob listed among the peers of a template sequence is not always
  reached in that sequence. The peers are one array, shared by every scan below the
  sequence and shifted in place. For the template body \<^verbatim>\<open>[a, glob_, c]\<close> and the
  program \<^verbatim>\<open>f(a, q); c;\<close> the scan of the arguments of \<^verbatim>\<open>f\<close> finds \<^verbatim>\<open>a\<close>, takes
  the glob from the shared peers, captures \<^verbatim>\<open>q\<close> and succeeds; the statement
  \<^verbatim>\<open>f(a, q);\<close> then counts as the statement \<^verbatim>\<open>a;\<close>, and the scan of the program
  body goes on with the peer after the glob: the match succeeds with \<^verbatim>\<open>c;\<close> as the
  next statement and fails with \<^verbatim>\<open>d;\<close>. Where the glob is reached in the program body
  itself, the peer after it is not looked at: \<^verbatim>\<open>[a, glob_, c]\<close> matches
  \<^verbatim>\<open>a; x; d;\<close>, and \<^verbatim>\<open>[glob_, c]\<close> matches \<^verbatim>\<open>x; y; c;\<close>, capturing all three
  statements, and \<^verbatim>\<open>x; y;\<close>; a glob reached with no element left captures the empty
  list.
\<close>

theorem glob_peer_checked_after_nested_glob:
  "matches (Program [callStmt ''f'' [''a'', ''q''], stmt ''c''])
     (BlockStatement [stmt ''a'', stmt ''glob_'', stmt ''c'']) defaultOptions = Some True \<and>
   matches (Program [callStmt ''f'' [''a'', ''q''], stmt ''d''])
     (BlockStatement [stmt ''a'', stmt ''glob_'', stmt ''c'']) defaultOptions = Some False \<and>
   anonymous (Program [callStmt ''f'' [''a'', ''q''], stmt ''c''])
     (BlockStatement [stmt ''a'', stmt ''glob_'', stmt ''c'']) defaultOptions = [JArr [Identifier ''q'']] \<and>
   matches (Program [stmt ''a'', stmt ''x'', stmt ''d''])
     (BlockStatement [stmt ''a'', stmt ''glob_'', stmt ''c'']) defaultOptions = Some True \<and>
   matches (Program [stmt ''x'', stmt ''y'', stmt ''c'']) (BlockStatement [stmt ''glob_'', stmt ''c''])
     defaultOptions = Some True \<and>
   anonymous (Program [stmt ''x'', stmt ''y'', stmt ''c'']) (BlockStatement [stmt ''glob_'', stmt ''c''])
     defaultOptions = [JArr [stmt ''x'', stmt ''y'', stmt ''c'']] \<and>
   matches (Program [stmt ''x'', stmt ''y'']) (BlockStatement [stmt ''glob_'', stmt ''c''])
     defaultOptions = Some True \<and>
   anonymous (Program []) (BlockStatement [stmt ''glob_'']) defaultOptions = [JArr []]"
  using ex_glob_nested_1 ex_glob_nested_2 ex_glob_nested_3 ex_glob_top ex_glob_1 ex_glob_1_capture
    ex_glob_2 ex_glob_empty
  by (intro conjI)

text \<open>
  C5 on the code: the peers of a template sequence are one array, which
  \<^verbatim>\<open>checkNodeArray\<close> shifts in place and which every scan below the sequence shares. A
  scan of a nested array that finds the current target takes the next peer from the
  shared array, and the peer stays taken when that scan fails. For the template body
  \<^verbatim>\<open>[a, b]\<close> and the program \<^verbatim>\<open>f(a, q); a;\<close> the scan of the arguments of
  \<^verbatim>\<open>f\<close> finds \<^verbatim>\<open>a\<close> and takes \<^verbatim>\<open>b\<close>; the scan of the program body then finds
  the statement \<^verbatim>\<open>a;\<close> with no peer left and succeeds, though the program has no
  \<^verbatim>\<open>b\<close>. In the same way \<^verbatim>\<open>[b, f(b)]\<close> matches \<^verbatim>\<open>f(b); b;\<close>, where the two
  statements stand in the other order. Without the nested occurrence the peer is
  required (\<^verbatim>\<open>[a, b]\<close> matches neither \<^verbatim>\<open>a;\<close> nor \<^verbatim>\<open>f(q); a;\<close>), \<^verbatim>\<open>[a, b]\<close>
  matches \<^verbatim>\<open>a; c; b;\<close>, and \<^verbatim>\<open>[b, a]\<close> does not match \<^verbatim>\<open>a; b;\<close>.
\<close>

theorem peer_taken_by_nested_scan:
  "matches (Program [callStmt ''f'' [''a'', ''q''], stmt ''a'']) (BlockStatement [stmt ''a'', stmt ''b''])
     defaultOptions = Some True \<and>
   matches (Program [callStmt ''f'' [''b''], stmt ''b'']) (BlockStatement [stmt ''b'', callStmt ''f'' [''b'']])
     defaultOptions = Some True \<and>
   matches (Program [stmt ''a'']) (BlockStatement [stmt ''a'', stmt ''b'']) defaultOptions = Some False \<and>
   matches (Program [callStmt ''f'' [''q''], stmt ''a'']) (BlockStatement [stmt ''a'', stmt ''b''])
     defaultOptions = Some False \<and>
   matches (Program [stmt ''a'', stmt ''c'', stmt ''b'']) (BlockStatement [stmt ''a'', stmt ''b''])
     defaultOptions = Some True \<and>
   matches (Program [stmt ''a'', stmt ''b'']) (BlockStatement [stmt ''b'', stmt ''a''])
     defaultOptions = Some False"
  using ex_peers_nested_1 ex_peers_nested_2 ex_peers_missing ex_peers_nested_3 ex_peers_1 ex_peers_2
  by (intro conjI)

section \<open>Callbacks on unknown names\<close>



lemma varValue_errlog [simp]: "varValue (st\<lparr>errlog := l\<rparr>) = varValue st"
  by (rule ext) (simp add: varValue_def)

lemma missingVars_errlog [simp]: "missingVars (st\<lparr>errlog := l\<rparr>) = missingVars st"
  by (rule ext) (simp add: missingVars_def)

lemma answers_errlog [simp]: "answers (st\<lparr>errlog := l\<rparr>) cbs = answers st cbs"
  by (simp add: answers_def)

lemma consulted_errlog [simp]: "consulted (st\<lparr>errlog := l\<rparr>) cbs = consulted st cbs"
  by (simp add: consulted_def)


lemma varValue_failure [simp]: "varValue (st\<lparr>failure := l\<rparr>) = varValue st"
  by (rule ext) (simp add: varValue_def)

lemma answers_failure [simp]: "answers (st\<lparr>failure := l\<rparr>) cbs = answers st cbs"
  by (simp add: answers_def)

lemma consulted_failure [simp]: "consulted (st\<lparr>failure := l\<rparr>) cbs = consulted st cbs"
  by (simp add: consulted_def)

lemma missingVars_failure [simp]: "missingVars (st\<lparr>failure := l\<rparr>) = missingVars st"
  by (rule ext) (simp add: missingVars_def)









lemma ex_plain_reject:
  "matches (Program [stmt ''a'']) (BlockStatement [stmt ''a''])
     (defaultOptions\<lparr>varCallbacks := [(''$nope'', rejectAll)]\<rparr>) = Some True"
  by code_simp

lemma ex_plain_log:
  "logged (Program [stmt ''a'']) (BlockStatement [stmt ''a''])
     (defaultOptions\<lparr>varCallbacks := [(''$nope'', rejectAll)]\<rparr>) = []"
  by code_simp



section \<open>Folding below the root\<close>

lemma getp_nullish [simp]: "nullish v \<Longrightarrow> getp v k = JUndef"
  by (cases v) (simp_all add: getp_def)

lemma getp_JObj: "getp (JObj fs) k = (case map_of fs k of Some x \<Rightarrow> x | None \<Rightarrow> JUndef)"
  by (simp add: getp_def split: option.splits)

lemma map_of_setf: "map_of (setf fs k x) = (map_of fs)(k \<mapsto> x)"
  by (induction fs) auto

lemma getp_setf_other: "k \<noteq> k' \<Longrightarrow> getp (JObj (setf fs k' x)) k = getp (JObj fs) k"
  by (simp add: getp_JObj map_of_setf)

lemma getp_type_obj: "getp v ''type'' = JStr s \<Longrightarrow> \<exists>fs. v = JObj fs"
  by (cases v) (auto simp: getp_def map_of_index_keys)

lemma foldUnary_spec:
  "foldUnary ast =
     (if foldable ast then (folded ast, None)
      else if isUnaryType (getp ast ''type'') \<and> nullish (getp ast ''argument'') then (ast, Some TypeError)
      else (ast, None))"
proof (cases "foldable ast")
  case True
  then obtain afs where a: "getp ast ''argument'' = JObj afs"
    using getp_type_obj[of "getp ast ''argument''" "''Literal''"] by (auto simp: foldable_def)
  obtain n where n: "getp (JObj afs) ''value'' = JNum n"
    using True a by (cases "getp (JObj afs) ''value''") (auto simp: foldable_def)
  show ?thesis
    using True a n by (auto simp: foldUnary_def foldable_def folded_def Let_def)
next
  case False
  show ?thesis
  proof (cases "isUnaryType (getp ast ''type'')")
    case u: True
    show ?thesis
    proof (cases "nullish (getp ast ''argument'')")
      case True
      thus ?thesis using False u by (simp add: foldUnary_def Let_def)
    next
      case n: False
      show ?thesis
        using False u n
        by (auto simp: foldUnary_def foldable_def Let_def split: jsval.splits)
    qed
  next
    case u: False
    thus ?thesis using False by (simp add: foldUnary_def)
  qed
qed


lemma desc_sub:
  "d \<in> set (descendants t) \<Longrightarrow> set (descendants d) \<subseteq> set (descendants t)"
  "d \<in> set (descFields fs) \<Longrightarrow> set (descendants d) \<subseteq> set (descFields fs)"
  "d \<in> set (descElems xs) \<Longrightarrow> set (descendants d) \<subseteq> set (descElems xs)"
  by (induction t and fs and xs rule: descendants_descFields_descElems.induct) auto

lemma descFields_mem: "map_of fs k = Some v \<Longrightarrow> v \<in> set (descFields fs)"
  by (induction fs) (auto split: if_splits)

lemma descElems_mem: "v \<in> set xs \<Longrightarrow> v \<in> set (descElems xs)"
  by (induction xs) auto

lemma getp_own_prop:
  assumes o: "isObject (getp t k)"
  shows "map_of (own_props t) k = Some (getp t k)"
proof (cases "map_of (own_props t) k")
  case None
  have "getp t k =
     (case t of
        JArr xs \<Rightarrow> if k = ''length'' then JNum (show_nat (length xs)) else JUndef
      | JStr s \<Rightarrow> if k = ''length'' then JNum (show_nat (length s)) else JUndef
      | _ \<Rightarrow> JUndef)"
    unfolding getp_def by (simp only: None option.case)
  hence "\<not> isObject (getp t k)" by (cases t) simp_all
  thus ?thesis using o by simp
next
  case (Some x)
  thus ?thesis by (simp add: getp_def)
qed

lemma getp_descendant:
  assumes o: "isObject (getp t k)"
  shows "getp t k \<in> set (descendants t)"
proof -
  from o have m: "map_of (own_props t) k = Some (getp t k)" by (rule getp_own_prop)
  show ?thesis
  proof (cases t)
    case (JObj fs)
    with m show ?thesis by (simp add: descFields_mem)
  next
    case (JArr xs)
    with m have "getp t k \<in> set xs" by (auto dest!: map_of_SomeD set_zip_rightD)
    with JArr show ?thesis by (simp add: descElems_mem)
  next
    case (JStr s)
    with m have "getp t k \<in> set (map (\<lambda>c. JStr [c]) s)" by (auto dest!: map_of_SomeD set_zip_rightD)
    with o show ?thesis by auto
  qed (use m in simp_all)
qed

lemma descFields_setf: "set (descFields (setf fs k x)) \<subseteq> set (descFields fs) \<union> insert x (set (descendants x))"
  by (induction fs) (auto split: if_splits)

lemma foldable_isObject: "foldable d \<Longrightarrow> isObject d"
  by (cases d) (auto simp: foldable_def getp_def isUnaryType_def map_of_index_keys split: option.splits)

lemma not_foldable_number: "\<not> foldable (JNum m)"
  using foldable_isObject[of "JNum m"] by auto

lemma folded_shape:
  assumes "foldable a"
  obtains afs n m where "getp a ''argument'' = JObj afs" "getp (JObj afs) ''type'' = JStr ''Literal''"
    "getp (JObj afs) ''value'' = JNum n" "folded a = JObj (setf afs ''value'' (JNum m))"
proof -
  from assms obtain afs where a: "getp a ''argument'' = JObj afs"
    using getp_type_obj[of "getp a ''argument''" "''Literal''"] by (auto simp: foldable_def)
  obtain n where n: "getp (JObj afs) ''value'' = JNum n"
    using assms a by (cases "getp (JObj afs) ''value''") (auto simp: foldable_def)
  have t: "getp (JObj afs) ''type'' = JStr ''Literal''" using assms a by (simp add: foldable_def)
  have "folded a = JObj (setf afs ''value'' (JNum (if getp a ''operator'' = JStr ''-'' then negNum n else n)))"
    using a n by (simp add: folded_def)
  with a t n that show ?thesis by blast
qed

lemma folded_not_foldable:
  assumes "foldable a"
  shows "\<not> foldable (folded a)"
proof -
  from assms obtain afs n m where s: "getp (JObj afs) ''type'' = JStr ''Literal''"
    "folded a = JObj (setf afs ''value'' (JNum m))" by (rule folded_shape)
  have "getp (folded a) ''type'' = JStr ''Literal''"
    unfolding s(2) using s(1) by (simp add: getp_setf_other)
  thus ?thesis by (simp add: foldable_def isUnaryType_def)
qed

lemma folded_descendants:
  assumes f: "foldable a" and n: "\<forall>d \<in> set (descendants a). \<not> foldable d"
  shows "\<forall>d \<in> set (descendants (folded a)). \<not> foldable d"
proof -
  from f obtain afs n' m where s: "getp a ''argument'' = JObj afs"
    "folded a = JObj (setf afs ''value'' (JNum m))" by (rule folded_shape)
  have arg: "JObj afs \<in> set (descendants a)"
    using getp_descendant[of a "''argument''"] s(1) by simp
  hence sub: "set (descFields afs) \<subseteq> set (descendants a)" using desc_sub(1)[OF arg] by simp
  show ?thesis
  proof
    fix d assume "d \<in> set (descendants (folded a))"
    hence "d \<in> set (descFields afs) \<union> insert (JNum m) (set (descendants (JNum m)))"
      unfolding s(2) using descFields_setf[of afs "''value''" "JNum m"] by auto
    hence "d \<in> set (descendants a) \<or> d = JNum m" using sub by auto
    thus "\<not> foldable d" using n not_foldable_number by auto
  qed
qed

lemma fold_normal:
  "foldConstants t = (t', None) \<Longrightarrow> \<forall>d \<in> set (descendants t'). \<not> foldable d"
  "foldFields fs = (fs', None) \<Longrightarrow> \<forall>d \<in> set (descFields fs'). \<not> foldable d"
  "foldElems xs = (xs', None) \<Longrightarrow> \<forall>d \<in> set (descElems xs'). \<not> foldable d"
  "foldChild ast = (r, None) \<Longrightarrow> \<not> foldable r \<and> (\<forall>d \<in> set (descendants r). \<not> foldable d)"
proof (induction t and fs and xs and ast arbitrary: t' and fs' and xs' and r
    rule: foldConstants_foldFields_foldElems_foldChild.induct)
  case (1 fs)
  then show ?case by (auto split: prod.splits)
next
  case (2 xs)
  then show ?case by (auto split: prod.splits)
next
  case (10 k ast rest)
  obtain a e where a: "foldChild ast = (a, e)" by (cases "foldChild ast") auto
  with "10.prems" have e: "e = None" by (cases e) auto
  obtain rest' e' where r: "foldFields rest = (rest', e')" by (cases "foldFields rest") auto
  with "10.prems" a e have e': "e' = None" and fs': "fs' = (k, a) # rest'" by auto
  from "10.IH"(1)[OF a[unfolded e]] have 1: "\<not> foldable a \<and> (\<forall>d \<in> set (descendants a). \<not> foldable d)" .
  from "10.IH"(2)[OF a[unfolded e, symmetric] _ r[unfolded e']]
  have 2: "\<forall>d \<in> set (descFields rest'). \<not> foldable d" by simp
  from 1 2 show ?case unfolding fs' by auto
next
  case (12 ast rest)
  obtain a e where a: "foldChild ast = (a, e)" by (cases "foldChild ast") auto
  with "12.prems" have e: "e = None" by (cases e) auto
  obtain rest' e' where r: "foldElems rest = (rest', e')" by (cases "foldElems rest") auto
  with "12.prems" a e have e': "e' = None" and xs': "xs' = a # rest'" by auto
  from "12.IH"(1)[OF a[unfolded e]] have 1: "\<not> foldable a \<and> (\<forall>d \<in> set (descendants a). \<not> foldable d)" .
  from "12.IH"(2)[OF a[unfolded e, symmetric] _ r[unfolded e']]
  have 2: "\<forall>d \<in> set (descElems rest'). \<not> foldable d" by simp
  from 1 2 show ?case unfolding xs' by auto
next
  case (13 ast)
  show ?case
  proof (cases "isObject ast")
    case False
    with "13.prems" have "r = ast" by simp
    with False show ?thesis using foldable_isObject[of ast] by (cases ast) auto
  next
    case True
    obtain a1 e where a: "foldConstants ast = (a1, e)" by (cases "foldConstants ast") auto
    with "13.prems" True have e: "e = None" and u: "foldUnary a1 = (r, None)" by (cases e; simp)+
    have n: "\<forall>d \<in> set (descendants a1). \<not> foldable d" using "13.IH"[OF True a[unfolded e]] .
    show ?thesis
    proof (cases "foldable a1")
      case f: True
      hence "r = folded a1" using u by (simp add: foldUnary_spec)
      thus ?thesis using folded_not_foldable[OF f] folded_descendants[OF f n] by simp
    next
      case f: False
      hence "r = a1" using u by (simp add: foldUnary_spec split: if_splits)
      thus ?thesis using f n by simp
    qed
  qed
qed simp_all

lemma rewrite_in_field:
  "rewrite\<^sup>*\<^sup>* v v' \<Longrightarrow> rewrite\<^sup>*\<^sup>* (JObj (fs @ (k, v) # fs')) (JObj (fs @ (k, v') # fs'))"
proof (induction rule: rtranclp_induct)
  case base
  show ?case by simp
next
  case (step y z)
  have "rewrite (JObj (fs @ (k, y) # fs')) (JObj (fs @ (k, z) # fs'))"
    using step.hyps(2) by (rule rewrite.in_field)
  with step.IH show ?case by simp
qed

lemma rewrite_in_elem:
  "rewrite\<^sup>*\<^sup>* v v' \<Longrightarrow> rewrite\<^sup>*\<^sup>* (JArr (xs @ v # xs')) (JArr (xs @ v' # xs'))"
proof (induction rule: rtranclp_induct)
  case base
  show ?case by simp
next
  case (step y z)
  have "rewrite (JArr (xs @ y # xs')) (JArr (xs @ z # xs'))"
    using step.hyps(2) by (rule rewrite.in_elem)
  with step.IH show ?case by simp
qed

lemma childStep_refl: "childStep a a"
  unfolding childStep_def by blast

lemma childStep_field:
  assumes "childStep a r"
  shows "rewrite\<^sup>*\<^sup>* (JObj (fs @ (k, a) # fs')) (JObj (fs @ (k, r) # fs'))"
proof -
  from assms obtain a' where a: "rewrite\<^sup>*\<^sup>* a a'" and r: "r = a' \<or> (foldable a' \<and> r = folded a')"
    unfolding childStep_def by blast
  have 1: "rewrite\<^sup>*\<^sup>* (JObj (fs @ (k, a) # fs')) (JObj (fs @ (k, a') # fs'))"
    using a by (rule rewrite_in_field)
  from r show ?thesis
  proof
    assume "r = a'"
    with 1 show ?thesis by simp
  next
    assume f: "foldable a' \<and> r = folded a'"
    hence "rewrite (JObj (fs @ (k, a') # fs')) (JObj (fs @ (k, r) # fs'))"
      using rewrite.field[of a' fs k fs'] by simp
    with 1 show ?thesis by simp
  qed
qed

lemma childStep_elem:
  assumes "childStep a r"
  shows "rewrite\<^sup>*\<^sup>* (JArr (xs @ a # xs')) (JArr (xs @ r # xs'))"
proof -
  from assms obtain a' where a: "rewrite\<^sup>*\<^sup>* a a'" and r: "r = a' \<or> (foldable a' \<and> r = folded a')"
    unfolding childStep_def by blast
  have 1: "rewrite\<^sup>*\<^sup>* (JArr (xs @ a # xs')) (JArr (xs @ a' # xs'))"
    using a by (rule rewrite_in_elem)
  from r show ?thesis
  proof
    assume "r = a'"
    with 1 show ?thesis by simp
  next
    assume f: "foldable a' \<and> r = folded a'"
    hence "rewrite (JArr (xs @ a' # xs')) (JArr (xs @ r # xs'))"
      using rewrite.elem[of a' xs xs'] by simp
    with 1 show ?thesis by simp
  qed
qed

lemma fold_rewrites:
  "rewrite\<^sup>*\<^sup>* t (fst (foldConstants t))"
  "rewrite\<^sup>*\<^sup>* (JObj (pre @ fs)) (JObj (pre @ fst (foldFields fs)))"
  "rewrite\<^sup>*\<^sup>* (JArr (pre' @ xs)) (JArr (pre' @ fst (foldElems xs)))"
  "childStep ast (fst (foldChild ast))"
proof (induction t and fs and xs and ast arbitrary: and pre and pre' and
    rule: foldConstants_foldFields_foldElems_foldChild.induct)
  case (1 fs)
  from "1.IH"[of "[]"] show ?case by (auto split: prod.splits)
next
  case (2 xs)
  from "2.IH"[of "[]"] show ?case by (auto split: prod.splits)
next
  case (10 k ast rest)
  obtain a e where a: "foldChild ast = (a, e)" by (cases "foldChild ast") auto
  have c: "childStep ast a" using "10.IH"(1) a by simp
  have 1: "rewrite\<^sup>*\<^sup>* (JObj (pre @ (k, ast) # rest)) (JObj (pre @ (k, a) # rest))"
    using c by (rule childStep_field)
  show ?case
  proof (cases e)
    case (Some err)
    hence "fst (foldFields ((k, ast) # rest)) = (k, a) # rest"
      using a by (simp del: foldChild.simps)
    thus ?thesis using 1 by simp
  next
    case None
    obtain rest' e' where r: "foldFields rest = (rest', e')" by (cases "foldFields rest")
    have res: "fst (foldFields ((k, ast) # rest)) = (k, a) # rest'"
      using a None r by (simp del: foldChild.simps)
    from "10.IH"(2)[OF a[unfolded None, symmetric] refl, of "pre @ [(k, a)]"]
    have "rewrite\<^sup>*\<^sup>* (JObj (pre @ (k, a) # rest)) (JObj (pre @ (k, a) # rest'))"
      using r by simp
    with 1 show ?thesis unfolding res by simp
  qed
next
  case (12 ast rest)
  obtain a e where a: "foldChild ast = (a, e)" by (cases "foldChild ast") auto
  have c: "childStep ast a" using "12.IH"(1) a by simp
  have 1: "rewrite\<^sup>*\<^sup>* (JArr (pre' @ ast # rest)) (JArr (pre' @ a # rest))"
    using c by (rule childStep_elem)
  show ?case
  proof (cases e)
    case (Some err)
    hence "fst (foldElems (ast # rest)) = a # rest"
      using a by (simp del: foldChild.simps)
    thus ?thesis using 1 by simp
  next
    case None
    obtain rest' e' where r: "foldElems rest = (rest', e')" by (cases "foldElems rest")
    have res: "fst (foldElems (ast # rest)) = a # rest'"
      using a None r by (simp del: foldChild.simps)
    from "12.IH"(2)[OF a[unfolded None, symmetric] refl, of "pre' @ [a]"]
    have "rewrite\<^sup>*\<^sup>* (JArr (pre' @ a # rest)) (JArr (pre' @ a # rest'))"
      using r by simp
    with 1 show ?thesis unfolding res by simp
  qed
next
  case (13 ast)
  show ?case
  proof (cases "isObject ast")
    case False
    thus ?thesis by (simp add: childStep_refl)
  next
    case True
    obtain a1 e where a: "foldConstants ast = (a1, e)" by (cases "foldConstants ast") auto
    have r: "rewrite\<^sup>*\<^sup>* ast a1" using "13.IH"[OF True] a by simp
    show ?thesis
    proof (cases e)
      case (Some err)
      thus ?thesis using True a r by (auto simp: childStep_def)
    next
      case None
      have "fst (foldChild ast) = fst (foldUnary a1)" using True a None by simp
      moreover have "fst (foldUnary a1) = a1 \<or> (foldable a1 \<and> fst (foldUnary a1) = folded a1)"
        by (simp add: foldUnary_spec)
      ultimately show ?thesis using r unfolding childStep_def by metis
    qed
  qed
qed (simp_all add: childStep_refl)

lemma rewrite_keys: "rewrite t t' \<Longrightarrow> map fst (own_props t') = map fst (own_props t)"
  by (induction rule: rewrite.induct) simp_all

lemma rewrites_keys: "rewrite\<^sup>*\<^sup>* t t' \<Longrightarrow> map fst (own_props t') = map fst (own_props t)"
  by (induction rule: rtranclp_induct) (simp_all add: rewrite_keys)

lemma folded_literal:
  assumes "foldable v" and "getp (getp v ''argument'') ''value'' = JNum n"
  shows "getp (folded v) ''value'' = JNum (if getp v ''operator'' = JStr ''-'' then negNum n else n) \<and>
         (\<forall>k. k \<noteq> ''value'' \<longrightarrow> getp (folded v) k = getp (getp v ''argument'') k)"
proof -
  from assms(1) obtain afs where a: "getp v ''argument'' = JObj afs"
    using getp_type_obj[of "getp v ''argument''" "''Literal''"] by (auto simp: foldable_def)
  have f: "folded v = JObj (setf afs ''value'' (JNum (if getp v ''operator'' = JStr ''-'' then negNum n else n)))"
    using a assms(2) by (simp add: folded_def)
  show ?thesis unfolding f a by (simp add: getp_JObj map_of_setf)
qed

lemma fold_error:
  "foldConstants t = (t', Some e) \<Longrightarrow> e = TypeError"
  "foldFields fs = (fs', Some e) \<Longrightarrow> e = TypeError"
  "foldElems xs = (xs', Some e) \<Longrightarrow> e = TypeError"
  "foldChild ast = (r, Some e) \<Longrightarrow> e = TypeError"
proof (induction t and fs and xs and ast arbitrary: t' e and fs' e and xs' e and r e
    rule: foldConstants_foldFields_foldElems_foldChild.induct)
  case (1 fs)
  then show ?case by (auto split: prod.splits)
next
  case (2 xs)
  then show ?case by (auto split: prod.splits)
next
  case (10 k ast rest)
  obtain a eo where a: "foldChild ast = (a, eo)" by (cases "foldChild ast") auto
  show ?case
  proof (cases eo)
    case (Some err)
    hence "e = err" using "10.prems" a by (simp del: foldChild.simps)
    thus ?thesis using "10.IH"(1)[OF a[unfolded Some]] by simp
  next
    case None
    obtain rest' e' where r: "foldFields rest = (rest', e')" by (cases "foldFields rest") auto
    hence "e' = Some e" using "10.prems" a None by (simp del: foldChild.simps)
    thus ?thesis using "10.IH"(2)[OF a[unfolded None, symmetric] refl] r by simp
  qed
next
  case (12 ast rest)
  obtain a eo where a: "foldChild ast = (a, eo)" by (cases "foldChild ast") auto
  show ?case
  proof (cases eo)
    case (Some err)
    hence "e = err" using "12.prems" a by (simp del: foldChild.simps)
    thus ?thesis using "12.IH"(1)[OF a[unfolded Some]] by simp
  next
    case None
    obtain rest' e' where r: "foldElems rest = (rest', e')" by (cases "foldElems rest") auto
    hence "e' = Some e" using "12.prems" a None by (simp del: foldChild.simps)
    thus ?thesis using "12.IH"(2)[OF a[unfolded None, symmetric] refl] r by simp
  qed
next
  case (13 ast)
  show ?case
  proof (cases "isObject ast")
    case False
    thus ?thesis using "13.prems" by simp
  next
    case True
    obtain a1 eo where a: "foldConstants ast = (a1, eo)" by (cases "foldConstants ast") auto
    show ?thesis
    proof (cases eo)
      case (Some err)
      hence "e = err" using "13.prems" True a by simp
      thus ?thesis using "13.IH"[OF True a[unfolded Some]] by simp
    next
      case None
      hence "foldUnary a1 = (r, Some e)" using "13.prems" True a by simp
      thus ?thesis by (simp add: foldUnary_spec split: if_splits)
    qed
  qed
qed simp_all

lemma ex_fold_root:
  "foldConstants (UnaryExpression ''-'' (NumberLiteral 5)) = (UnaryExpression ''-'' (NumberLiteral 5), None)"
  by code_simp

lemma ex_fold_root_foldable: "foldable (UnaryExpression ''-'' (NumberLiteral 5))"
  by code_simp

lemma ex_fold_root_match:
  "matches (Program [ExpressionStatement (UnaryExpression ''-'' (NumberLiteral 5))])
     (UnaryExpression ''-'' (NumberLiteral 5)) defaultOptions = Some False"
  by code_simp

lemma ex_fold_match_1:
  "matches (Program [ExpressionStatement (UnaryExpression ''-'' (NumberLiteral 5))])
     (BlockStatement [ExpressionStatement (NumberLiteral (- 5))]) defaultOptions = Some True"
  by code_simp

lemma ex_fold_match_2:
  "matches (Program [ExpressionStatement (UnaryExpression ''-'' (NumberLiteral 5))])
     (BlockStatement [ExpressionStatement (UnaryExpression ''-'' (NumberLiteral 5))]) defaultOptions = Some True"
  by code_simp

lemma ex_fold_program:
  "foldConstants (Program [ExpressionStatement (UnaryExpression ''-'' (NumberLiteral 5))]) =
     (Program [ExpressionStatement (NumberLiteral (- 5))], None)"
  by code_simp

lemma ex_fold_twice:
  "foldConstants (Program [ExpressionStatement (UnaryExpression ''-'' (UnaryExpression ''-'' (NumberLiteral 5)))]) =
     (Program [ExpressionStatement (NumberLiteral 5)], None)"
  by code_simp

lemma ex_fold_sum:
  "foldConstants (Program [ExpressionStatement (BinaryExpression ''+'' (NumberLiteral 1) (NumberLiteral 2))]) =
     (Program [ExpressionStatement (BinaryExpression ''+'' (NumberLiteral 1) (NumberLiteral 2))], None)"
  by code_simp

lemma ex_fold_desc:
  "NumberLiteral (- 5) \<in> set (descendants (Program [ExpressionStatement (NumberLiteral (- 5))]))"
  by code_simp

lemma ex_fold_value:
  "getp (getp (UnaryExpression ''-'' (NumberLiteral 5)) ''argument'') ''value'' = JNum ''5''"
  by code_simp

text \<open>
  C6, as stated, fails at the root: \<^verbatim>\<open>foldConstants(tree)\<close> rewrites the children of
  \<^verbatim>\<open>tree\<close>, never \<^verbatim>\<open>tree\<close> itself. A template passed as the expression node
  \<^verbatim>\<open>-5\<close> (unary minus applied to the literal 5) stays as it is, and does not match
  the program \<^verbatim>\<open>-5;\<close>, whose tree is folded.
\<close>

theorem fold_every_signed_literal_counterexample:
  "foldable (UnaryExpression ''-'' (NumberLiteral 5)) \<and>
   foldConstants (UnaryExpression ''-'' (NumberLiteral 5)) = (UnaryExpression ''-'' (NumberLiteral 5), None) \<and>
   matches (Program [ExpressionStatement (UnaryExpression ''-'' (NumberLiteral 5))])
     (UnaryExpression ''-'' (NumberLiteral 5)) defaultOptions = Some False"
  using ex_fold_root_foldable ex_fold_root ex_fold_root_match by blast

text \<open>
  C6, amended: \<^verbatim>\<open>foldConstants(tree)\<close> gets from the tree to its result by replacing
  foldable nodes below the root by their literals, one after the other, and by nothing
  else; the root keeps its keys. When it returns, no node below the root is foldable
  (a replacement that makes the parent foldable is followed by the parent's, so
  \<^verbatim>\<open>-(-5)\<close> becomes \<^verbatim>\<open>5\<close>); when it throws, it throws a \<^verbatim>\<open>TypeError\<close> (on a unary
  node without argument). The literal that replaces a foldable node is its argument
  with the value negated for \<^verbatim>\<open>-\<close> and unchanged for \<^verbatim>\<open>+\<close>, every other property
  as it was. The sum \<^verbatim>\<open>1 + 2\<close> is left alone. The program \<^verbatim>\<open>-5;\<close> matches the
  template statement holding the literal \<open>-5\<close>, and the template statement \<^verbatim>\<open>-5;\<close>.
\<close>

theorem fold_rewrites_signed_literals_below_root:
  "rewrite\<^sup>*\<^sup>* t (fst (foldConstants t)) \<and>
   map fst (own_props (fst (foldConstants t))) = map fst (own_props t) \<and>
   (foldConstants t = (t', None) \<longrightarrow> (\<forall>d \<in> set (descendants t'). \<not> foldable d)) \<and>
   (foldConstants t = (t', Some e) \<longrightarrow> e = TypeError) \<and>
   (foldable v \<and> getp (getp v ''argument'') ''value'' = JNum n \<longrightarrow>
      getp (folded v) ''value'' = JNum (if getp v ''operator'' = JStr ''-'' then negNum n else n) \<and>
      (\<forall>k. k \<noteq> ''value'' \<longrightarrow> getp (folded v) k = getp (getp v ''argument'') k)) \<and>
   foldConstants (Program [ExpressionStatement (UnaryExpression ''-'' (NumberLiteral 5))]) =
     (Program [ExpressionStatement (NumberLiteral (- 5))], None) \<and>
   foldConstants (Program [ExpressionStatement (UnaryExpression ''-'' (UnaryExpression ''-'' (NumberLiteral 5)))]) =
     (Program [ExpressionStatement (NumberLiteral 5)], None) \<and>
   foldConstants (Program [ExpressionStatement (BinaryExpression ''+'' (NumberLiteral 1) (NumberLiteral 2))]) =
     (Program [ExpressionStatement (BinaryExpression ''+'' (NumberLiteral 1) (NumberLiteral 2))], None) \<and>
   matches (Program [ExpressionStatement (UnaryExpression ''-'' (NumberLiteral 5))])
     (BlockStatement [ExpressionStatement (NumberLiteral (- 5))]) defaultOptions = Some True \<and>
   matches (Program [ExpressionStatement (UnaryExpression ''-'' (NumberLiteral 5))])
     (BlockStatement [ExpressionStatement (UnaryExpression ''-'' (NumberLiteral 5))])
     defaultOptions = Some True"
proof -
  have 1: "rewrite\<^sup>*\<^sup>* t (fst (foldConstants t))" by (rule fold_rewrites(1))
  have 2: "map fst (own_props (fst (foldConstants t))) = map fst (own_props t)"
    using 1 by (rule rewrites_keys)
  have 3: "foldConstants t = (t', None) \<longrightarrow> (\<forall>d \<in> set (descendants t'). \<not> foldable d)"
    using fold_normal(1) by blast
  have 4: "foldConstants t = (t', Some e) \<longrightarrow> e = TypeError"
    using fold_error(1) by blast
  have 5: "foldable v \<and> getp (getp v ''argument'') ''value'' = JNum n \<longrightarrow>
      getp (folded v) ''value'' = JNum (if getp v ''operator'' = JStr ''-'' then negNum n else n) \<and>
      (\<forall>k. k \<noteq> ''value'' \<longrightarrow> getp (folded v) k = getp (getp v ''argument'') k)"
    using folded_literal by blast
  from 1 2 3 4 5 ex_fold_program ex_fold_twice ex_fold_sum ex_fold_match_1 ex_fold_match_2
  show ?thesis by (intro conjI)
qed

theorem fold_rewrites_signed_literals_below_root_witness:
  "foldConstants (Program [ExpressionStatement (UnaryExpression ''-'' (NumberLiteral 5))]) =
     (Program [ExpressionStatement (NumberLiteral (- 5))], None) \<and>
   NumberLiteral (- 5) \<in> set (descendants (Program [ExpressionStatement (NumberLiteral (- 5))])) \<and>
   \<not> foldable (NumberLiteral (- 5)) \<and>
   foldable (UnaryExpression ''-'' (NumberLiteral 5)) \<and>
   getp (folded (UnaryExpression ''-'' (NumberLiteral 5))) ''value'' = JNum ''-5'' \<and>
   getp (folded (UnaryExpression ''-'' (NumberLiteral 5))) ''type'' = JStr ''Literal''"
proof -
  note t = fold_rewrites_signed_literals_below_root
  have a: "\<not> foldable (NumberLiteral (- 5))"
    using t[THEN conjunct2, THEN conjunct2, THEN conjunct1, rule_format, OF ex_fold_program ex_fold_desc] .
  have b: "getp (folded (UnaryExpression ''-'' (NumberLiteral 5))) ''value'' =
       JNum (if getp (UnaryExpression ''-'' (NumberLiteral 5)) ''operator'' = JStr ''-'' then negNum ''5'' else ''5'') \<and>
     (\<forall>k. k \<noteq> ''value'' \<longrightarrow> getp (folded (UnaryExpression ''-'' (NumberLiteral 5))) k =
        getp (getp (UnaryExpression ''-'' (NumberLiteral 5)) ''argument'') k)"
    using t[THEN conjunct2, THEN conjunct2, THEN conjunct2, THEN conjunct2, THEN conjunct1,
        of "UnaryExpression ''-'' (NumberLiteral 5)" "''5''"] ex_fold_root_foldable ex_fold_value
    by blast
  have c: "getp (UnaryExpression ''-'' (NumberLiteral 5)) ''operator'' = JStr ''-''"
    by (simp add: UnaryExpression_def getp_def)
  have d: "getp (getp (UnaryExpression ''-'' (NumberLiteral 5)) ''argument'') ''type'' = JStr ''Literal''"
    by (simp add: UnaryExpression_def NumberLiteral_def getp_def)
  have e: "negNum ''5'' = ''-5''" by (simp add: negNum_def)
  from b c d e have "getp (folded (UnaryExpression ''-'' (NumberLiteral 5))) ''value'' = JNum ''-5''"
    and "getp (folded (UnaryExpression ''-'' (NumberLiteral 5))) ''type'' = JStr ''Literal''"
    by simp_all
  with a ex_fold_program ex_fold_desc ex_fold_root_foldable show ?thesis by simp
qed

section \<open>Calling match again\<close>

lemma ex_twice_huge:
  "twice hugeParser (CodeObj 0 (Program [ExpressionStatement hugeLiteral])) (StructText ''function() { 1e999; }'')
     = (Some (Inr False), Some (Inr True))"
  by code_simp

lemma ex_twice_huge_text:
  "twice hugeParser (CodeText ''1e999;'') (StructText ''function() { 1e999; }'')
     = (Some (Inr True), Some (Inr True))"
  by code_simp

lemma ex_twice_huge_obj:
  "twice hugeParser (CodeObj 0 (Program [ExpressionStatement hugeLiteral]))
     (StructObj (BlockStatement [ExpressionStatement hugeLiteral]))
     = (Some (Inr True), Some (Inr True))"
  by code_simp

lemma ex_clone_huge:
  "jsonClone hugeLiteral = JObj [(''type'', JStr ''Literal''), (''value'', JNull), (''raw'', JStr ''1e999'')]"
  by code_simp

text \<open>
  C8 on the code: the first call with a template text matches against the tree the
  parser returns, every later call against the tree read back from the JSON text in
  \<^verbatim>\<open>structureCache\<close>. The literal \<^verbatim>\<open>1e999\<close> has the value \<^verbatim>\<open>Infinity\<close>, which JSON
  writes as \<^verbatim>\<open>null\<close>. With the program passed as the tree of \<^verbatim>\<open>1e999;\<close> (cloned
  through JSON, so its value is \<^verbatim>\<open>null\<close>) and the template text
  \<^verbatim>\<open>function() { 1e999; }\<close>, the first call compares \<^verbatim>\<open>Infinity\<close> with \<^verbatim>\<open>null\<close>
  and returns false, and the second call, whose template value is \<^verbatim>\<open>null\<close>, skips the
  property and returns a match. With the program passed as text, or the template as a
  tree, both calls match.
\<close>

theorem second_match_differs_on_infinite_literal:
  "twice hugeParser (CodeObj 0 (Program [ExpressionStatement hugeLiteral])) (StructText ''function() { 1e999; }'')
     = (Some (Inr False), Some (Inr True)) \<and>
   twice hugeParser (CodeText ''1e999;'') (StructText ''function() { 1e999; }'')
     = (Some (Inr True), Some (Inr True)) \<and>
   twice hugeParser (CodeObj 0 (Program [ExpressionStatement hugeLiteral]))
     (StructObj (BlockStatement [ExpressionStatement hugeLiteral]))
     = (Some (Inr True), Some (Inr True)) \<and>
   jsonClone hugeLiteral = JObj [(''type'', JStr ''Literal''), (''value'', JNull), (''raw'', JStr ''1e999'')]"
  using ex_twice_huge ex_twice_huge_text ex_twice_huge_obj ex_clone_huge by (intro conjI)

section \<open>The search for variables\<close>

lemma ex_var_1:
  "matches (Program [ExpressionStatement (BinaryExpression ''+'' (Identifier ''a'') (Identifier ''a''))])
     (BlockStatement [ExpressionStatement (BinaryExpression ''+'' (Identifier ''$x'') (Identifier ''$x''))])
     defaultOptions = Some True"
  by code_simp

lemma ex_var_2:
  "matches (Program [ExpressionStatement (BinaryExpression ''+'' (Identifier ''a'') (Identifier ''b''))])
     (BlockStatement [ExpressionStatement (BinaryExpression ''+'' (Identifier ''$x'') (Identifier ''$x''))])
     defaultOptions = Some False"
  by code_simp

lemma ex_var_3:
  "fst (simplifyTree
     (BlockStatement [ExpressionStatement (BinaryExpression ''+'' (Identifier ''$x'') (Identifier ''$x''))])
     initState) =
   BlockStatement [ExpressionStatement
     (BinaryExpression ''+'' (JObj [(''wildcardVar'', JStr ''$x'')]) (JRef ''$x''))]"
  by code_simp

lemma ex_var_skipped_1:
  "fst (simplifyTree (BlockStatement [EmptyStatement, stmt ''$x'', stmt ''$x'']) initState) =
   BlockStatement [stmt ''$x'', ExpressionStatement (JObj [(''wildcardVar'', JStr ''$x'')])]"
  by code_simp

lemma ex_var_skipped_2:
  "matches (Program [stmt ''a'', stmt ''a''])
     (BlockStatement [EmptyStatement, stmt ''$x'', stmt ''$x'']) defaultOptions = Some False"
  by code_simp

lemma ex_var_skipped_3:
  "matches (Program [stmt ''a'', stmt ''a''])
     (BlockStatement [stmt ''$x'', stmt ''$x'']) defaultOptions = Some True"
  by code_simp

lemma ex_var_skipped_4:
  "matches (Program [stmt ''$x'', stmt ''b''])
     (BlockStatement [EmptyStatement, stmt ''$x'', stmt ''$x'']) defaultOptions = Some True"
  by code_simp

lemma ex_var_skipped_5:
  "matches (Program [stmt ''a'', stmt ''b''])
     (BlockStatement [stmt ''$x'', stmt ''$x'']) defaultOptions = Some False"
  by code_simp

lemma ex_crash_1:
  "outcome (Program [ExpressionStatement (ArrayExpression [NumberLiteral 1, JNull, NumberLiteral 2])])
     (BlockStatement [ExpressionStatement (CallExpression (Identifier ''f'') [Identifier ''$x''])])
     defaultOptions = Some (Inl TypeError)"
  by code_simp

lemma ex_crash_2:
  "outcome (Program [ExpressionStatement (ArrayExpression [NumberLiteral 1, JNull, NumberLiteral 2])])
     (BlockStatement [ExpressionStatement (CallExpression (Identifier ''f'') [Identifier ''$x''])])
     (defaultOptions\<lparr>varCallbacks := [(''$x'', rejectAll)]\<rparr>) = Some (Inl TypeError)"
  by code_simp

lemma ex_reject:
  "outcome (Program [stmt ''a'', stmt ''b''])
     (BlockStatement [stmt ''$x''])
     (defaultOptions\<lparr>varCallbacks := [(''$x'', rejectAll)]\<rparr>) = Some (Inr False)"
  by code_simp

lemma ex_crash_3:
  "outcome (Program [ExpressionStatement (ArrayExpression [NumberLiteral 1, NumberLiteral 2])])
     (BlockStatement [ExpressionStatement (CallExpression (Identifier ''f'') [Identifier ''$x''])])
     defaultOptions = Some (Inr False)"
  by code_simp

text \<open>
  C2 on the code: \<^verbatim>\<open>$x + $x\<close> is normalised to a binding site and an alias of its
  cell, matches \<^verbatim>\<open>a + a\<close> and does not match \<^verbatim>\<open>a + b\<close>. But in the template body
  \<^verbatim>\<open>; $x; $x;\<close> the removal of the empty statement makes \<^verbatim>\<open>simplifyTree\<close> skip
  the statement after it: the first \<^verbatim>\<open>$x\<close> stays the identifier \<^verbatim>\<open>$x\<close>, the second
  becomes the binding site and no occurrence becomes an alias. This template does not
  match \<^verbatim>\<open>a; a;\<close> (which \<^verbatim>\<open>$x; $x;\<close> matches), and it matches \<^verbatim>\<open>$x; b;\<close>, where
  the two occurrences stand for different nodes.
\<close>

theorem repeated_variable_after_empty_statement:
  "fst (simplifyTree
     (BlockStatement [ExpressionStatement (BinaryExpression ''+'' (Identifier ''$x'') (Identifier ''$x''))])
     initState) =
   BlockStatement [ExpressionStatement
     (BinaryExpression ''+'' (JObj [(''wildcardVar'', JStr ''$x'')]) (JRef ''$x''))] \<and>
   matches (Program [ExpressionStatement (BinaryExpression ''+'' (Identifier ''a'') (Identifier ''a''))])
     (BlockStatement [ExpressionStatement (BinaryExpression ''+'' (Identifier ''$x'') (Identifier ''$x''))])
     defaultOptions = Some True \<and>
   matches (Program [ExpressionStatement (BinaryExpression ''+'' (Identifier ''a'') (Identifier ''b''))])
     (BlockStatement [ExpressionStatement (BinaryExpression ''+'' (Identifier ''$x'') (Identifier ''$x''))])
     defaultOptions = Some False \<and>
   fst (simplifyTree (BlockStatement [EmptyStatement, stmt ''$x'', stmt ''$x'']) initState) =
     BlockStatement [stmt ''$x'', ExpressionStatement (JObj [(''wildcardVar'', JStr ''$x'')])] \<and>
   matches (Program [stmt ''a'', stmt ''a''])
     (BlockStatement [EmptyStatement, stmt ''$x'', stmt ''$x'']) defaultOptions = Some False \<and>
   matches (Program [stmt ''a'', stmt ''a''])
     (BlockStatement [stmt ''$x'', stmt ''$x'']) defaultOptions = Some True \<and>
   matches (Program [stmt ''$x'', stmt ''b''])
     (BlockStatement [EmptyStatement, stmt ''$x'', stmt ''$x'']) defaultOptions = Some True \<and>
   matches (Program [stmt ''a'', stmt ''b''])
     (BlockStatement [stmt ''$x'', stmt ''$x'']) defaultOptions = Some False"
  using ex_var_3 ex_var_1 ex_var_2 ex_var_skipped_1 ex_var_skipped_2 ex_var_skipped_3
    ex_var_skipped_4 ex_var_skipped_5
  by simp

text \<open>
  C1 on the code: on the program \<^verbatim>\<open>[1, , 2];\<close>, whose array has a hole (the parser
  gives \<^verbatim>\<open>null\<close> for it), the search for the template \<^verbatim>\<open>f($x);\<close> neither returns
  a match nor returns false: \<^verbatim>\<open>checkNodeArray\<close> passes the \<^verbatim>\<open>null\<close> element to
  \<^verbatim>\<open>exactMatchNode\<close>, which reads its \<^verbatim>\<open>type\<close> and throws, also when a callback
  that always rejects is registered. Without the hole the search returns false, as it
  does when the callback rejects every binding.
\<close>

theorem variable_search_throws_on_array_hole:
  "outcome (Program [ExpressionStatement (ArrayExpression [NumberLiteral 1, JNull, NumberLiteral 2])])
     (BlockStatement [ExpressionStatement (CallExpression (Identifier ''f'') [Identifier ''$x''])])
     defaultOptions = Some (Inl TypeError) \<and>
   outcome (Program [ExpressionStatement (ArrayExpression [NumberLiteral 1, JNull, NumberLiteral 2])])
     (BlockStatement [ExpressionStatement (CallExpression (Identifier ''f'') [Identifier ''$x''])])
     (defaultOptions\<lparr>varCallbacks := [(''$x'', rejectAll)]\<rparr>) = Some (Inl TypeError) \<and>
   outcome (Program [ExpressionStatement (ArrayExpression [NumberLiteral 1, NumberLiteral 2])])
     (BlockStatement [ExpressionStatement (CallExpression (Identifier ''f'') [Identifier ''$x''])])
     defaultOptions = Some (Inr False) \<and>
   outcome (Program [stmt ''a'', stmt ''b'']) (BlockStatement [stmt ''$x''])
     (defaultOptions\<lparr>varCallbacks := [(''$x'', rejectAll)]\<rparr>) = Some (Inr False)"
  using ex_crash_1 ex_crash_2 ex_crash_3 ex_reject by simp

section \<open>The caller's tree\<close>

lemma newRegion_refl: "newRegion h h"
  by (auto simp add: newRegion_def)

lemma newRegion_trans:
  assumes "newRegion h h1" "newRegion h1 h2"
  shows "newRegion h h2"
proof -
  from assms have t1: "take (length h) h1 = h" and t2: "take (length h1) h2 = h1"
    and l1: "length h \<le> length h1" and l2: "length h1 \<le> length h2"
    by (simp_all add: newRegion_def)
  have "take (length h) h2 = take (length h) (take (length h1) h2)"
    using l1 by (simp add: min_def)
  hence a: "take (length h) h2 = h" using t1 t2 by simp
  have b: "refs (h2 ! x) \<subseteq> {length h..<length h2}" if x: "length h \<le> x" "x < length h2" for x
  proof (cases "x < length h1")
    case True
    have "h2 ! x = take (length h1) h2 ! x" using True by simp
    hence "h2 ! x = h1 ! x" using t2 by simp
    moreover have "refs (h1 ! x) \<subseteq> {length h..<length h1}"
      using assms(1) x True by (simp add: newRegion_def)
    ultimately show ?thesis using l2 by auto
  next
    case False
    hence "refs (h2 ! x) \<subseteq> {length h1..<length h2}"
      using assms(2) x by (simp add: newRegion_def)
    thus ?thesis using l1 by auto
  qed
  show ?thesis unfolding newRegion_def using a b l1 l2 by auto
qed

lemma newRegion_snoc:
  assumes "newRegion h h1" "refs ob \<subseteq> {length h..<Suc (length h1)}"
  shows "newRegion h (h1 @ [ob])"
proof -
  from assms have t1: "take (length h) h1 = h" and l1: "length h \<le> length h1"
    by (simp_all add: newRegion_def)
  have b: "refs ((h1 @ [ob]) ! x) \<subseteq> {length h..<length (h1 @ [ob])}"
    if x: "length h \<le> x" "x < length (h1 @ [ob])" for x
  proof (cases "x < length h1")
    case True
    hence "refs (h1 ! x) \<subseteq> {length h..<length h1}"
      using assms(1) x by (simp add: newRegion_def)
    thus ?thesis using True by (auto simp: nth_append)
  next
    case False
    hence "x = length h1" using x by simp
    thus ?thesis using assms(2) by (auto simp: nth_append)
  qed
  show ?thesis unfolding newRegion_def using t1 l1 b by auto
qed

lemma alloc_region:
  "allocJ t h = (h', v) \<Longrightarrow>
     newRegion h h' \<and> (\<forall>a. v = HRef a \<longrightarrow> length h \<le> a \<and> a < length h')"
  "allocFields fs h = (h', fs') \<Longrightarrow>
     newRegion h h' \<and> (\<forall>a. HRef a \<in> set (map snd fs') \<longrightarrow> length h \<le> a \<and> a < length h')"
  "allocElems xs h = (h', xs') \<Longrightarrow>
     newRegion h h' \<and> (\<forall>a. HRef a \<in> set xs' \<longrightarrow> length h \<le> a \<and> a < length h')"
proof (induction t h and fs h and xs h arbitrary: h' v and h' fs' and h' xs'
       rule: allocJ_allocFields_allocElems.induct)
  case (6 v h)
  have "newRegion h (h @ [HObj []])"
    by (rule newRegion_snoc) (simp_all add: newRegion_refl refs_def)
  thus ?case using 6 by auto
next
  case (7 fs h)
  obtain h1 fs1 where a: "allocFields fs h = (h1, fs1)" by (cases "allocFields fs h")
  from "7.IH"[OF a] have r: "newRegion h h1"
    and b: "\<forall>a. HRef a \<in> set (map snd fs1) \<longrightarrow> length h \<le> a \<and> a < length h1" by simp_all
  have "newRegion h (h1 @ [HObj fs1])"
    by (rule newRegion_snoc[OF r]) (use b in \<open>auto simp: refs_def\<close>)
  moreover have "length h \<le> length h1" using r by (simp add: newRegion_def)
  ultimately show ?case using 7 a by auto
next
  case (8 xs h)
  obtain h1 xs1 where a: "allocElems xs h = (h1, xs1)" by (cases "allocElems xs h")
  from "8.IH"[OF a] have r: "newRegion h h1"
    and b: "\<forall>a. HRef a \<in> set xs1 \<longrightarrow> length h \<le> a \<and> a < length h1" by simp_all
  have "newRegion h (h1 @ [HArr xs1])"
    by (rule newRegion_snoc[OF r]) (use b in \<open>auto simp: refs_def\<close>)
  moreover have "length h \<le> length h1" using r by (simp add: newRegion_def)
  ultimately show ?case using 8 a by auto
next
  case (10 k v rest h)
  obtain h1 w where a: "allocJ v h = (h1, w)" by (cases "allocJ v h")
  obtain h2 rest1 where b: "allocFields rest h1 = (h2, rest1)" by (cases "allocFields rest h1")
  from "10.IH"(1)[OF a] have r1: "newRegion h h1"
    and w: "\<forall>a. w = HRef a \<longrightarrow> length h \<le> a \<and> a < length h1" by simp_all
  from "10.IH"(2)[OF a[symmetric] b] have r2: "newRegion h1 h2"
    and rs: "\<forall>a. HRef a \<in> set (map snd rest1) \<longrightarrow> length h1 \<le> a \<and> a < length h2" by simp_all
  have l: "length h \<le> length h1" "length h1 \<le> length h2"
    using r1 r2 by (simp_all add: newRegion_def)
  have "newRegion h h2" by (rule newRegion_trans[OF r1 r2])
  moreover have "fs' = (k, w) # rest1" "h' = h2" using 10 a b by auto
  ultimately show ?case using w rs l by auto
next
  case (12 v rest h)
  obtain h1 w where a: "allocJ v h = (h1, w)" by (cases "allocJ v h")
  obtain h2 rest1 where b: "allocElems rest h1 = (h2, rest1)" by (cases "allocElems rest h1")
  from "12.IH"(1)[OF a] have r1: "newRegion h h1"
    and w: "\<forall>a. w = HRef a \<longrightarrow> length h \<le> a \<and> a < length h1" by simp_all
  from "12.IH"(2)[OF a[symmetric] b] have r2: "newRegion h1 h2"
    and rs: "\<forall>a. HRef a \<in> set rest1 \<longrightarrow> length h1 \<le> a \<and> a < length h2" by simp_all
  have l: "length h \<le> length h1" "length h1 \<le> length h2"
    using r1 r2 by (simp_all add: newRegion_def)
  have "newRegion h h2" by (rule newRegion_trans[OF r1 r2])
  moreover have "xs' = w # rest1" "h' = h2" using 12 a b by auto
  ultimately show ?case using w rs l by auto
qed (auto simp: newRegion_refl)

lemma sameOutside_refl: "sameOutside h h F"
  by (simp add: sameOutside_def)

lemma sameOutside_trans:
  "sameOutside h h1 F \<Longrightarrow> sameOutside h1 h2 F \<Longrightarrow> sameOutside h h2 F"
  by (auto simp: sameOutside_def)

lemma hvalues_slotSet: "length (hvalues (slotSet ob i v)) = length (hvalues ob)"
  by (cases ob) simp_all

lemma refs_slotSet_scalar:
  assumes sc: "\<forall>c. v \<noteq> HRef c"
  shows "refs (slotSet ob i v) \<subseteq> refs ob"
proof (cases ob)
  case (HObj fs)
  show ?thesis
  proof
    fix a assume "a \<in> refs (slotSet ob i v)"
    hence "HRef a \<in> snd ` set (fs[i := (fst (fs ! i), v)])" by (simp add: HObj refs_def)
    then obtain p where p: "p \<in> set (fs[i := (fst (fs ! i), v)])" "snd p = HRef a" by auto
    from p(1) have "p \<in> insert (fst (fs ! i), v) (set fs)" using set_update_subset_insert by fast
    hence "p \<in> set fs" using p(2) sc by auto
    thus "a \<in> refs ob" using p(2) by (force simp: HObj refs_def)
  qed
next
  case (HArr xs)
  show ?thesis
  proof
    fix a assume "a \<in> refs (slotSet ob i v)"
    hence "HRef a \<in> set (xs[i := v])" by (simp add: HArr refs_def)
    hence "HRef a \<in> insert v (set xs)" using set_update_subset_insert by fast
    thus "a \<in> refs ob" using sc by (auto simp: HArr refs_def)
  qed
qed

lemma refs_slotSet_ref: "refs (slotSet ob i (HRef c)) \<subseteq> insert c (refs ob)"
proof (cases ob)
  case (HObj fs)
  show ?thesis
  proof
    fix a assume "a \<in> refs (slotSet ob i (HRef c))"
    hence "HRef a \<in> snd ` set (fs[i := (fst (fs ! i), HRef c)])" by (simp add: HObj refs_def)
    then obtain p where p: "p \<in> set (fs[i := (fst (fs ! i), HRef c)])" "snd p = HRef a" by auto
    from p(1) have "p \<in> insert (fst (fs ! i), HRef c) (set fs)"
      using set_update_subset_insert by fast
    thus "a \<in> insert c (refs ob)" using p(2) by (force simp: HObj refs_def)
  qed
next
  case (HArr xs)
  show ?thesis
  proof
    fix a assume "a \<in> refs (slotSet ob i (HRef c))"
    hence "HRef a \<in> set (xs[i := HRef c])" by (simp add: HArr refs_def)
    hence "HRef a \<in> insert (HRef c) (set xs)" using set_update_subset_insert by fast
    thus "a \<in> insert c (refs ob)" by (auto simp: HArr refs_def)
  qed
qed

lemma write_inside:
  assumes "closedIn h F" "c \<in> F" "refs ob \<subseteq> F"
    "length (hvalues ob) = length (hvalues (h ! c))"
  shows "closedIn (h[c := ob]) F \<and> sameOutside h (h[c := ob]) F"
proof -
  have "closedIn (h[c := ob]) F"
    unfolding closedIn_def
  proof
    fix x assume x: "x \<in> F"
    hence xl: "x < length h" and xr: "refs (h ! x) \<subseteq> F"
      using assms(1) by (auto simp: closedIn_def)
    show "x < length (h[c := ob]) \<and> refs (h[c := ob] ! x) \<subseteq> F"
      using xl xr assms(3) by (cases "x = c") simp_all
  qed
  moreover have "sameOutside h (h[c := ob]) F"
    unfolding sameOutside_def
  proof (intro conjI allI ballI impI)
    fix x assume "x < length h \<and> x \<notin> F"
    thus "h[c := ob] ! x = h ! x" using assms(2) by (cases "x = c") auto
  next
    fix x assume "x \<in> F"
    hence "x < length h" using assms(1) by (auto simp: closedIn_def)
    thus "length (hvalues (h[c := ob] ! x)) = length (hvalues (h ! x))"
      using assms(4) by (cases "x = c") simp_all
  qed simp
  ultimately show ?thesis ..
qed

lemma map_of_hprops:
  assumes m: "map_of (hprops ob) k = Some v"
  shows "v \<in> set (hvalues ob)"
proof (cases ob)
  case (HObj fs)
  from m have "(k, v) \<in> set fs" using HObj by (auto dest: map_of_SomeD)
  thus ?thesis using HObj by force
next
  case (HArr xs)
  from m have "(k, v) \<in> set (zip (map show_nat [0..<length xs]) xs)"
    using HArr by (auto dest: map_of_SomeD)
  thus ?thesis using HArr by (auto dest: set_zip_rightD)
qed

lemma hget_ref: "hget h (HRef b) k = HRef c \<Longrightarrow> b < length h \<and> c \<in> refs (h ! b)"
  by (auto simp: hget_def refs_def split: if_splits option.splits dest: map_of_hprops)

lemma foldUnaryH_Replace:
  assumes a: "foldUnaryH fuel h b = Replace c n"
  shows "b < length h \<and> c \<in> refs (h ! b)"
proof -
  from a have "hget h (HRef b) ''argument'' = HRef c"
    by (auto simp: foldUnaryH_def Let_def split: if_splits hval.splits)
  thus ?thesis by (rule hget_ref)
qed

lemma fold_frame:
  "closedIn h F \<Longrightarrow> tree \<in> F \<Longrightarrow> foldConstantsH fuel h tree = (h', e)
     \<Longrightarrow> closedIn h' F \<and> sameOutside h h' F"
  "closedIn h F \<Longrightarrow> tree \<in> F \<Longrightarrow> i + n \<le> length (hvalues (h ! tree))
     \<Longrightarrow> foldSlotsH fuel h tree i n = (h', e)
     \<Longrightarrow> closedIn h' F \<and> sameOutside h h' F"
proof (induction fuel h tree and fuel h tree i n arbitrary: h' e and h' e
       rule: foldConstantsH_foldSlotsH.induct)
  case (1 h tree)
  thus ?case by (simp add: sameOutside_refl)
next
  case (2 fuel h tree)
  thus ?case by (auto simp: sameOutside_refl split: if_splits)
next
  case (3 fuel h tree i)
  thus ?case by (simp add: sameOutside_refl)
next
  case (4 fuel h tree i n)
  note cl = "4.prems"(1) and tF = "4.prems"(2) and len = "4.prems"(3) and run = "4.prems"(4)
  have il: "i < length (hvalues (h ! tree))" using len by simp
  show ?case
  proof (cases "hvalues (h ! tree) ! i")
    case (HRef ast)
    have "HRef ast \<in> set (hvalues (h ! tree))" using il HRef nth_mem by metis
    hence astF: "ast \<in> F" using cl tF by (auto simp: closedIn_def refs_def)
    obtain h1 e1 where f: "foldConstantsH fuel h ast = (h1, e1)"
      by (cases "foldConstantsH fuel h ast")
    from "4.IH"(6)[OF HRef cl astF f] have c1: "closedIn h1 F" and s1: "sameOutside h h1 F"
      by simp_all
    have len1: "Suc i + n \<le> length (hvalues (h1 ! tree))"
      using s1 tF len by (simp add: sameOutside_def)
    show ?thesis
    proof (cases e1)
      case (Some err)
      hence "h' = h1" using run HRef f by simp
      thus ?thesis using c1 s1 by simp
    next
      case None
      show ?thesis
      proof (cases "foldUnaryH fuel h1 ast")
        case Keep
        hence r: "foldSlotsH fuel h1 tree (Suc i) n = (h', e)" using run HRef f None by simp
        from "4.IH"(7)[OF HRef f[symmetric] None Keep c1 tF len1 r]
        show ?thesis using s1 sameOutside_trans by blast
      next
        case Throw
        hence "h' = h1" using run HRef f None by simp
        thus ?thesis using c1 s1 by simp
      next
        case (Replace c v)
        define h2 where "h2 = h1[c := slotSet (h1 ! c) (keyIndex (hprops (h1 ! c)) ''value'') (HNum v)]"
        define h3 where "h3 = h2[tree := slotSet (h2 ! tree) i (HRef c)]"
        have "ast < length h1 \<and> c \<in> refs (h1 ! ast)" using Replace by (rule foldUnaryH_Replace)
        hence cF: "c \<in> F" using c1 astF by (auto simp: closedIn_def)
        have "refs (slotSet (h1 ! c) (keyIndex (hprops (h1 ! c)) ''value'') (HNum v)) \<subseteq> refs (h1 ! c)"
          by (rule refs_slotSet_scalar) simp
        hence "refs (slotSet (h1 ! c) (keyIndex (hprops (h1 ! c)) ''value'') (HNum v)) \<subseteq> F"
          using c1 cF by (auto simp: closedIn_def)
        from write_inside[OF c1 cF this hvalues_slotSet]
        have c2: "closedIn h2 F" and s2: "sameOutside h1 h2 F" by (simp_all add: h2_def)
        have "refs (slotSet (h2 ! tree) i (HRef c)) \<subseteq> insert c (refs (h2 ! tree))"
          by (rule refs_slotSet_ref)
        hence "refs (slotSet (h2 ! tree) i (HRef c)) \<subseteq> F"
          using c2 cF tF by (auto simp: closedIn_def)
        from write_inside[OF c2 tF this hvalues_slotSet]
        have c3: "closedIn h3 F" and s3: "sameOutside h2 h3 F" by (simp_all add: h3_def)
        have s13: "sameOutside h h3 F"
          using s1 s2 s3 sameOutside_trans by blast
        have len3: "Suc i + n \<le> length (hvalues (h3 ! tree))"
          using s13 tF len by (simp add: sameOutside_def)
        have r: "foldSlotsH fuel h3 tree (Suc i) n = (h', e)"
          using run HRef f None Replace by (simp add: h3_def h2_def Let_def)
        from "4.IH"(8)[unfolded Let_def, OF HRef f[symmetric] None Replace,
                       folded h2_def, folded h3_def, OF c3 tF len3 r]
        show ?thesis using s13 sameOutside_trans by blast
      qed
    qed
  next
    case HUndef
    hence r: "foldSlotsH fuel h tree (Suc i) n = (h', e)" using run by simp
    have "Suc i + n \<le> length (hvalues (h ! tree))" using len by simp
    from "4.IH"(1)[OF HUndef cl tF this r] show ?thesis .
  next
    case HNull
    hence r: "foldSlotsH fuel h tree (Suc i) n = (h', e)" using run by simp
    have "Suc i + n \<le> length (hvalues (h ! tree))" using len by simp
    from "4.IH"(2)[OF HNull cl tF this r] show ?thesis .
  next
    case (HBool b)
    hence r: "foldSlotsH fuel h tree (Suc i) n = (h', e)" using run by simp
    have "Suc i + n \<le> length (hvalues (h ! tree))" using len by simp
    from "4.IH"(3)[OF HBool cl tF this r] show ?thesis .
  next
    case (HNum m)
    hence r: "foldSlotsH fuel h tree (Suc i) n = (h', e)" using run by simp
    have "Suc i + n \<le> length (hvalues (h ! tree))" using len by simp
    from "4.IH"(4)[OF HNum cl tF this r] show ?thesis .
  next
    case (HStr str)
    hence r: "foldSlotsH fuel h tree (Suc i) n = (h', e)" using run by simp
    have "Suc i + n \<le> length (hvalues (h ! tree))" using len by simp
    from "4.IH"(5)[OF HStr cl tF this r] show ?thesis .
  qed
qed

lemma closedIn_extend:
  assumes n: "newRegion h h1" and c: "closedIn h F"
  shows "closedIn h1 (F \<union> {length h..<length h1})"
  unfolding closedIn_def
proof
  fix x assume x: "x \<in> F \<union> {length h..<length h1}"
  from n have t: "take (length h) h1 = h" and l: "length h \<le> length h1"
    by (simp_all add: newRegion_def)
  show "x < length h1 \<and> refs (h1 ! x) \<subseteq> F \<union> {length h..<length h1}"
  proof (cases "x \<in> F")
    case True
    hence xl: "x < length h" and xr: "refs (h ! x) \<subseteq> F" using c by (auto simp: closedIn_def)
    have "h1 ! x = take (length h) h1 ! x" using xl by simp
    hence "h1 ! x = h ! x" using t by simp
    thus ?thesis using xl xr l by auto
  next
    case False
    hence "length h \<le> x \<and> x < length h1" using x by simp
    thus ?thesis using n by (auto simp: newRegion_def)
  qed
qed

lemma newRegion_same:
  assumes n: "newRegion h h1" and x: "x < length h"
  shows "h1 ! x = h ! x"
proof -
  from n have t: "take (length h) h1 = h" by (simp add: newRegion_def)
  have "h1 ! x = take (length h) h1 ! x" using x by simp
  thus ?thesis using t by simp
qed

lemma codeTreeH_region:
  assumes inv: "cloneRegion h g F" and run: "codeTreeH parse fuel h g code = Inr (h1, ct)"
  shows "newRegion h h1 \<and> (\<forall>r. ct = HRef r \<longrightarrow> r \<in> F \<union> {length h..<length h1})"
proof (cases "hcachedCode g = Some code")
  case True
  hence "h1 = h" "ct = hcachedCodeTree g" using run by (simp_all add: codeTreeH_def)
  thus ?thesis using inv by (simp add: cloneRegion_def newRegion_refl)
next
  case False
  then obtain t where "allocJ t h = (h1, ct)"
    using run
    by (auto simp: codeTreeH_def deepCloneH_def split: hcode.splits option.splits sum.splits)
  from alloc_region(1)[OF this] show ?thesis by auto
qed

lemma foldTreeH_frame:
  assumes "closedIn h G" "\<forall>r. ct = HRef r \<longrightarrow> r \<in> G" "foldTreeH fuel h ct = (h2, e)"
  shows "closedIn h2 G \<and> sameOutside h h2 G"
proof (cases ct)
  case (HRef r)
  hence "r \<in> G" "foldConstantsH fuel h r = (h2, e)" using assms by (simp_all add: foldTreeH_def)
  from fold_frame(1)[OF assms(1) this] show ?thesis .
qed (use assms in \<open>auto simp: foldTreeH_def sameOutside_refl\<close>)

lemma matchH_step:
  assumes inv: "cloneRegion h g F"
    and run: "matchH parse fuel h g code rawStructure opts = (h', g', r)"
  shows "cloneRegion h' g' (F \<union> {length h..<length h'}) \<and> length h \<le> length h' \<and>
         (\<forall>x. x < length h \<and> x \<notin> F \<longrightarrow> h' ! x = h ! x)"
proof -
  obtain cache' sres where p: "parseStructureWithVars parse (hstructureCache g) rawStructure = (cache', sres)"
    by (cases "parseStructureWithVars parse (hstructureCache g) rawStructure")
  have same: "cloneRegion h (g\<lparr>hstructureCache := cache'\<rparr>) (F \<union> {length h..<length h})"
    using inv by (simp add: cloneRegion_def)
  show ?thesis
  proof (cases sres)
    case (Inl err)
    hence "h' = h" "g' = g\<lparr>hstructureCache := cache'\<rparr>" using run p by (simp_all add: matchH_def)
    thus ?thesis using same by simp
  next
    case (Inr pr)
    obtain struct st where pr: "pr = (struct, st)" by (cases pr)
    show ?thesis
    proof (cases "codeTreeH parse fuel h g code")
      case (Inl err)
      hence "h' = h" "g' = g\<lparr>hstructureCache := cache'\<rparr>"
        using run p Inr pr by (simp_all add: matchH_def)
      thus ?thesis using same by simp
    next
      case (Inr hc)
      obtain h1 ct where hc: "hc = (h1, ct)" by (cases hc)
      obtain h2 e where f: "foldTreeH fuel h1 ct = (h2, e)" by (cases "foldTreeH fuel h1 ct")
      let ?G = "F \<union> {length h..<length h1}"
      from codeTreeH_region[OF inv Inr[unfolded hc]]
      have n: "newRegion h h1" and ctG: "\<forall>r. ct = HRef r \<longrightarrow> r \<in> ?G" by simp_all
      have "closedIn h F" using inv by (simp add: cloneRegion_def)
      from closedIn_extend[OF n this] have c1: "closedIn h1 ?G" .
      from foldTreeH_frame[OF c1 ctG f] have c2: "closedIn h2 ?G" and s2: "sameOutside h1 h2 ?G"
        by simp_all
      have hh: "h' = h2" and gg: "hcachedCodeTree g' = ct"
        using run p \<open>sres = Inr pr\<close> pr Inr hc f
        by (auto simp: matchH_def Let_def split: option.splits)
      have l: "length h \<le> length h1" "length h2 = length h1"
        using n s2 by (simp_all add: newRegion_def sameOutside_def)
      have "h2 ! x = h ! x" if x: "x < length h" "x \<notin> F" for x
      proof -
        have "x < length h1 \<and> x \<notin> ?G" using x l by simp
        hence "h2 ! x = h1 ! x" using s2 unfolding sameOutside_def by blast
        thus ?thesis using newRegion_same[OF n x(1)] by simp
      qed
      thus ?thesis using hh gg c2 ctG l by (simp add: cloneRegion_def)
    qed
  qed
qed

lemma matchAll_frame:
  "cloneRegion h g F \<Longrightarrow> matchAll parse fuel calls h g = (h', g')
     \<Longrightarrow> length h \<le> length h' \<and> (\<forall>x. x < length h \<and> x \<notin> F \<longrightarrow> h' ! x = h ! x)"
proof (induction calls arbitrary: h g F)
  case Nil
  thus ?case by simp
next
  case (Cons call calls)
  obtain code rawStructure opts where call: "call = (code, rawStructure, opts)" by (cases call)
  obtain h1 g1 r where m: "matchH parse fuel h g code rawStructure opts = (h1, g1, r)"
    by (cases "matchH parse fuel h g code rawStructure opts")
  from matchH_step[OF Cons.prems(1) m]
  have inv1: "cloneRegion h1 g1 (F \<union> {length h..<length h1})" and l1: "length h \<le> length h1"
    and s1: "\<forall>x. x < length h \<and> x \<notin> F \<longrightarrow> h1 ! x = h ! x" by simp_all
  have rest: "matchAll parse fuel calls h1 g1 = (h', g')" using Cons.prems(2) call m by simp
  from Cons.IH[OF inv1 rest]
  have l2: "length h1 \<le> length h'"
    and s2: "\<forall>x. x < length h1 \<and> x \<notin> F \<union> {length h..<length h1} \<longrightarrow> h' ! x = h1 ! x"
    by blast+
  have "h' ! x = h ! x" if x: "x < length h" "x \<notin> F" for x
  proof -
    have "x < length h1 \<and> x \<notin> F \<union> {length h..<length h1}" using x l1 by simp
    hence "h' ! x = h1 ! x" using s2 by blast
    thus ?thesis using s1 x by simp
  qed
  thus ?case using l1 l2 by simp
qed

text \<open>
  C9. When the caller passes a tree, \<^verbatim>\<open>match\<close> never changes an object of the caller: on
  a cache miss the tree is cloned before constants are folded, on a cache hit the earlier
  clone is used again. After any sequence of calls, starting from the module's state at
  load time, every object that was in the store before the calls is as it was.
\<close>

theorem caller_tree_never_mutated:
  "take (length h) (fst (matchAll parse fuel calls h freshH)) = h"
proof -
  obtain h' g' where m: "matchAll parse fuel calls h freshH = (h', g')"
    by (cases "matchAll parse fuel calls h freshH")
  have "cloneRegion h freshH {}" by (simp add: cloneRegion_def closedIn_def freshH_def)
  from matchAll_frame[OF this m]
  have l: "length h \<le> length h'" and s: "\<forall>x. x < length h \<longrightarrow> h' ! x = h ! x" by simp_all
  have "take (length h) h' = h"
    by (rule nth_equalityI) (use l s in simp_all)
  thus ?thesis using m by simp
qed

text \<open>
  The calls do fold: the clone of the caller's \<^verbatim>\<open>-5;\<close> holds the literal \<^verbatim>\<open>-5\<close> afterwards,
  the caller's tree still reads as before, and the result is the one of \<open>match\<close>. A second
  call with the same object adds no object to the store. Folding the caller's tree
  itself would have changed it.
\<close>

lemma caller_tree_example:
  "(case matchH noParser 10 callerHeap freshH (HTree callerRoot) minusFive defaultOptions of
      (h', g', r) \<Rightarrow>
        readH 10 h' (HRef callerRoot) = Some callerProgram \<and>
        readH 10 h' (hcachedCodeTree g') = Some (Program [ExpressionStatement (NumberLiteral (- 5))]) \<and>
        map_option (map_sum id fst) r = Some (Inr True) \<and>
        map_option (map_sum id fst) r = outcome callerProgram (BlockStatement [ExpressionStatement (NumberLiteral (- 5))]) defaultOptions)"
  by code_simp

lemma caller_tree_example_twice:
  "(case matchAll noParser 10
      [(HTree callerRoot, minusFive, defaultOptions), (HTree callerRoot, minusFive, defaultOptions)]
      callerHeap freshH of
      (h', g') \<Rightarrow>
        readH 10 h' (HRef callerRoot) = Some callerProgram \<and>
        length h' = 2 * length callerHeap \<and>
        readH 10 h' (hcachedCodeTree g') = Some (Program [ExpressionStatement (NumberLiteral (- 5))]))"
  by code_simp

lemma folding_writes_in_place:
  "readH 10 (fst (foldConstantsH 10 callerHeap callerRoot)) (HRef callerRoot)
     = Some (Program [ExpressionStatement (NumberLiteral (- 5))])"
  by code_simp

end
